theory Spec2Isabelle
  imports Main "HOL-Library.Word"
begin

section \<open>JavaScript strings\<close>

text \<open>
  A JavaScript string is a sequence of 16-bit UTF-16 code units; \<open>charCodeAt\<close>,
  \<open>slice\<close>, \<open>trim\<close> and a regular expression without the \<open>u\<close> flag all work on code
  units. ASCII literals of the source are written with \<open>lit\<close>.
\<close>

type_synonym unit16 = "16 word"
type_synonym jsstring = "unit16 list"

definition lit :: "string \<Rightarrow> jsstring" where
  "lit s = map (\<lambda>c. of_nat (of_char c)) s"

definition dquote :: unit16 where
  "dquote = 0x22"

definition backslash :: unit16 where
  "backslash = 0x5C"

text \<open>\<open>s.slice(-k)\<close>: the last \<open>k\<close> code units of \<open>s\<close> (all of \<open>s\<close> when it is shorter).\<close>

definition slice_last :: "nat \<Rightarrow> jsstring \<Rightarrow> jsstring" where
  "slice_last k s = drop (length s - k) s"

text \<open>\<open>Number.prototype.toString(16)\<close> on a non-negative integer: lowercase digits,
  no leading zero.\<close>

definition hexDigit :: "nat \<Rightarrow> unit16" where
  "hexDigit d = (if d < 10 then of_nat (48 + d) else of_nat (87 + d))"

function toString16 :: "nat \<Rightarrow> jsstring" where
  "toString16 n =
     (if n < 16 then [hexDigit n] else toString16 (n div 16) @ [hexDigit (n mod 16)])"
  by pat_completeness auto
termination
  by (relation "measure id") auto

declare toString16.simps [simp del]

subsection \<open>Numbers as strings, padding, trimming\<close>

text \<open>\<open>String(n)\<close> and a template literal on an integer: decimal digits, a minus sign
  before a negative number.\<close>

definition decDigit :: "nat \<Rightarrow> unit16" where
  "decDigit d = of_nat (48 + d)"

function toString10 :: "nat \<Rightarrow> jsstring" where
  "toString10 n =
     (if n < 10 then [decDigit n] else toString10 (n div 10) @ [decDigit (n mod 10)])"
  by pat_completeness auto
termination
  by (relation "measure id") auto

declare toString10.simps [simp del]

definition number_toString :: "int \<Rightarrow> jsstring" where
  "number_toString i = (if i < 0 then lit ''-'' @ toString10 (nat (- i)) else toString10 (nat i))"

text \<open>\<open>s.padStart(targetLength, padString)\<close>: \<open>s\<close> itself when it is long enough or the
  pad string is empty, otherwise the pad string repeated and cut to the missing length,
  before \<open>s\<close>.\<close>

definition padStart :: "nat \<Rightarrow> jsstring \<Rightarrow> jsstring \<Rightarrow> jsstring" where
  "padStart targetLength padString s =
     (let fillLen = targetLength - length s
      in take fillLen (concat (replicate fillLen padString)) @ s)"

text \<open>\<open>String.prototype.trim\<close> strips the WhiteSpace and LineTerminator code points of
  ECMAScript from both ends.\<close>

definition isWhiteSpace :: "unit16 \<Rightarrow> bool" where
  "isWhiteSpace c \<longleftrightarrow>
     c = 0x09 \<or> c = 0x0A \<or> c = 0x0B \<or> c = 0x0C \<or> c = 0x0D \<or> c = 0x20 \<or> c = 0xA0
     \<or> c = 0x1680 \<or> (0x2000 \<le> c \<and> c \<le> 0x200A) \<or> c = 0x2028 \<or> c = 0x2029
     \<or> c = 0x202F \<or> c = 0x205F \<or> c = 0x3000 \<or> c = 0xFEFF"

definition trim :: "jsstring \<Rightarrow> jsstring" where
  "trim s = rev (dropWhile isWhiteSpace (rev (dropWhile isWhiteSpace s)))"

text \<open>A value that may be \<open>undefined\<close> or \<open>null\<close> is an option; as a condition, the
  absent value and the empty string are false.\<close>

definition truthy :: "jsstring option \<Rightarrow> bool" where
  "truthy v = (case v of None \<Rightarrow> False | Some s \<Rightarrow> s \<noteq> [])"

text \<open>\<open>Array.prototype.join\<close> on strings.\<close>

fun join :: "jsstring \<Rightarrow> jsstring list \<Rightarrow> jsstring" where
  "join sep [] = []"
| "join sep [x] = x"
| "join sep (x # y # ys) = x @ sep @ join sep (y # ys)"

section \<open>JSON.stringify\<close>

text \<open>
  ECMAScript's QuoteJSONString walks the code points of the string: the characters of
  its table get a two-character escape, another code point below 0x20 and a lone
  surrogate get UnicodeEscape (\<open>\u\<close> and four lowercase hexadecimal digits), and every
  other code point is copied, a surrogate pair as its two code units.
\<close>

definition isHighSurrogate :: "unit16 \<Rightarrow> bool" where
  "isHighSurrogate c \<longleftrightarrow> 0xD800 \<le> c \<and> c \<le> 0xDBFF"

definition isLowSurrogate :: "unit16 \<Rightarrow> bool" where
  "isLowSurrogate c \<longleftrightarrow> 0xDC00 \<le> c \<and> c \<le> 0xDFFF"

definition unicodeEscape :: "unit16 \<Rightarrow> jsstring" where
  "unicodeEscape c =
     (let hex = toString16 (unat c)
      in [backslash, 0x75] @ replicate (4 - length hex) 0x30 @ hex)"

definition quoteCodeUnit :: "unit16 \<Rightarrow> jsstring" where
  "quoteCodeUnit c =
     (if c = 0x08 then [backslash, 0x62]
      else if c = 0x09 then [backslash, 0x74]
      else if c = 0x0A then [backslash, 0x6E]
      else if c = 0x0C then [backslash, 0x66]
      else if c = 0x0D then [backslash, 0x72]
      else if c = 0x22 then [backslash, dquote]
      else if c = 0x5C then [backslash, backslash]
      else if c < 0x20 then unicodeEscape c
      else [c])"

fun quoteJSONChars :: "jsstring \<Rightarrow> jsstring" where
  "quoteJSONChars [] = []"
| "quoteJSONChars (c # cs) =
     (if isHighSurrogate c then
        (case cs of
           [] \<Rightarrow> unicodeEscape c
         | d # ds \<Rightarrow>
             if isLowSurrogate d then [c, d] @ quoteJSONChars ds
             else unicodeEscape c @ quoteJSONChars cs)
      else if isLowSurrogate c then unicodeEscape c @ quoteJSONChars cs
      else quoteCodeUnit c @ quoteJSONChars cs)"

definition quoteJSONString :: "jsstring \<Rightarrow> jsstring" where
  "quoteJSONString s = [dquote] @ quoteJSONChars s @ [dquote]"

text \<open>
  The objects that the program serialises have boolean and string properties, some of
  them \<open>undefined\<close>. SerializeJSONObject leaves out a property whose value is
  \<open>undefined\<close>; with a gap (\<open>JSON.stringify(v, null, 2)\<close> has the gap of two spaces)
  every property is on a line of its own, indented by the gap, with a space after the
  colon.
\<close>

datatype json_value = JUndefined | JBoolean bool | JString jsstring

definition serialize_value :: "json_value \<Rightarrow> jsstring option" where
  "serialize_value v =
     (case v of
        JUndefined \<Rightarrow> None
      | JBoolean b \<Rightarrow> Some (if b then lit ''true'' else lit ''false'')
      | JString s \<Rightarrow> Some (quoteJSONString s))"

definition serialize_property :: "jsstring \<Rightarrow> jsstring \<times> json_value \<Rightarrow> jsstring option" where
  "serialize_property gap p =
     (case serialize_value (snd p) of
        None \<Rightarrow> None
      | Some str \<Rightarrow>
          Some (quoteJSONString (fst p) @ lit '':'' @ (if gap = [] then [] else lit '' '') @ str))"

definition JSON_stringify_object :: "jsstring \<Rightarrow> (jsstring \<times> json_value) list \<Rightarrow> jsstring" where
  "JSON_stringify_object gap props =
     (let partial = List.map_filter (serialize_property gap) props
      in if partial = [] then lit ''{}''
         else if gap = [] then lit ''{'' @ join (lit '','') partial @ lit ''}''
         else lit ''{'' @ [0x0A] @ gap @ join (lit '','' @ [0x0A] @ gap) partial @ [0x0A]
                @ lit ''}'')"

section \<open>UTF-8\<close>

text \<open>
  Files and response bodies are bytes. Node writes a string as UTF-8
  (\<open>writeFileSync\<close> with \<open>encoding: "utf-8"\<close>) and reads bytes back as a string
  (\<open>readFileSync(path, "utf-8")\<close>, \<open>Buffer.toString()\<close>). The encoder pairs surrogates
  into a code point and writes a lone surrogate as U+FFFD; the decoder replaces every
  ill-formed sequence by U+FFFD, one per maximal subpart.
\<close>

type_synonym byte = "8 word"

definition code_point :: "unit16 \<Rightarrow> unit16 \<Rightarrow> nat" where
  "code_point hi lo = 0x10000 + (unat hi - 0xD800) * 1024 + (unat lo - 0xDC00)"

definition encode_code_point :: "nat \<Rightarrow> byte list" where
  "encode_code_point cp =
     (if cp < 0x80 then [of_nat cp]
      else if cp < 0x800 then [of_nat (0xC0 + cp div 64), of_nat (0x80 + cp mod 64)]
      else if cp < 0x10000 then
        [of_nat (0xE0 + cp div 4096), of_nat (0x80 + cp div 64 mod 64), of_nat (0x80 + cp mod 64)]
      else
        [of_nat (0xF0 + cp div 262144), of_nat (0x80 + cp div 4096 mod 64),
         of_nat (0x80 + cp div 64 mod 64), of_nat (0x80 + cp mod 64)])"

definition replacement_bytes :: "byte list" where
  "replacement_bytes = [0xEF, 0xBF, 0xBD]"

fun utf8_encode :: "jsstring \<Rightarrow> byte list" where
  "utf8_encode [] = []"
| "utf8_encode (c # cs) =
     (if isHighSurrogate c then
        (case cs of
           [] \<Rightarrow> replacement_bytes
         | d # ds \<Rightarrow>
             if isLowSurrogate d then encode_code_point (code_point c d) @ utf8_encode ds
             else replacement_bytes @ utf8_encode cs)
      else if isLowSurrogate c then replacement_bytes @ utf8_encode cs
      else encode_code_point (unat c) @ utf8_encode cs)"

text \<open>A decoded code point as UTF-16 code units; \<open>None\<close> is an ill-formed sequence.\<close>

definition utf16_units :: "nat option \<Rightarrow> jsstring" where
  "utf16_units r =
     (case r of
        None \<Rightarrow> [0xFFFD]
      | Some cp \<Rightarrow>
          if cp < 0x10000 then [of_nat cp]
          else [of_nat (0xD800 + (cp - 0x10000) div 1024),
                of_nat (0xDC00 + (cp - 0x10000) mod 1024)])"

text \<open>
  The continuation bytes of one sequence: \<open>needed\<close> more bytes, the next one within
  \<open>lower..upper\<close>. The result is the code point (or the error) and the number of
  continuation bytes consumed; a byte out of range is not consumed.
\<close>

fun continuation :: "nat \<Rightarrow> nat \<Rightarrow> nat \<Rightarrow> nat \<Rightarrow> byte list \<Rightarrow> nat \<Rightarrow> nat option \<times> nat" where
  "continuation 0 lower upper cp bs k = (Some cp, k)"
| "continuation (Suc needed) lower upper cp [] k = (None, k)"
| "continuation (Suc needed) lower upper cp (b # bs) k =
     (if lower \<le> unat b \<and> unat b \<le> upper
      then continuation needed 0x80 0xBF (cp * 64 + (unat b - 0x80)) bs (Suc k)
      else (None, k))"

definition utf8_sequence :: "byte \<Rightarrow> byte list \<Rightarrow> nat option \<times> nat" where
  "utf8_sequence b bs =
     (let n = unat b in
      if n < 0x80 then (Some n, 0)
      else if 0xC2 \<le> n \<and> n \<le> 0xDF then continuation 1 0x80 0xBF (n - 0xC0) bs 0
      else if 0xE0 \<le> n \<and> n \<le> 0xEF then
        continuation 2 (if n = 0xE0 then 0xA0 else 0x80) (if n = 0xED then 0x9F else 0xBF)
          (n - 0xE0) bs 0
      else if 0xF0 \<le> n \<and> n \<le> 0xF4 then
        continuation 3 (if n = 0xF0 then 0x90 else 0x80) (if n = 0xF4 then 0x8F else 0xBF)
          (n - 0xF0) bs 0
      else (None, 0))"

function utf8_decode :: "byte list \<Rightarrow> jsstring" where
  "utf8_decode [] = []"
| "utf8_decode (b # bs) =
     (case utf8_sequence b bs of (r, k) \<Rightarrow> utf16_units r @ utf8_decode (drop k bs))"
  by pat_completeness auto
termination
  by (relation "measure length") auto

section \<open>The HTTP client\<close>

text \<open>
  The arguments of \<open>makeRequest\<close>; the field \<open>http_method\<close> is its \<open>method\<close> argument
  and \<open>body\<close> is \<open>None\<close> when none is passed.
\<close>

record request =
  hostname :: jsstring
  path :: jsstring
  http_method :: jsstring
  headers :: "(jsstring \<times> jsstring) list"
  body :: "jsstring option"

text \<open>
  What comes back for a request: a complete response (the \<open>end\<close> event) with its
  \<open>statusCode\<close>, which the type allows to be \<open>undefined\<close>, and the chunks of the body,
  or the \<open>error\<close> event with the message of its error. The timeout destroys the request
  with \<open>new Error("Request timed out")\<close>, which is such an event. The network and the
  server are a function \<open>net\<close> from the request to what comes back.
\<close>

datatype http_event = Response "nat option" "byte list list" | RequestError jsstring

text \<open>A thrown or rejected \<open>Error\<close> with its message.\<close>

datatype error = Error jsstring

text \<open>
  The promise resolves with \<open>JSON.parse(data)\<close>, or with the text \<open>data\<close> itself when
  \<open>JSON.parse\<close> throws. \<open>JSON.parse\<close> at the type \<open>T\<close> of the call is the parameter
  \<open>parse\<close>, \<open>None\<close> where it throws.
\<close>

datatype 'v resolved = Parsed 'v | Raw jsstring

definition body_text :: "byte list list \<Rightarrow> jsstring" where
  "body_text chunks = utf8_decode (concat chunks)"

definition template_string :: "jsstring option \<Rightarrow> jsstring" where
  "template_string v = (case v of None \<Rightarrow> lit ''undefined'' | Some s \<Rightarrow> s)"

definition template_number :: "nat option \<Rightarrow> jsstring" where
  "template_number v = (case v of None \<Rightarrow> lit ''undefined'' | Some n \<Rightarrow> toString10 n)"

definition success_status :: "nat option \<Rightarrow> bool" where
  "success_status statusCode =
     (case statusCode of None \<Rightarrow> False | Some n \<Rightarrow> n \<noteq> 0 \<and> 200 \<le> n \<and> n < 300)"

definition makeRequest ::
  "(jsstring \<Rightarrow> 'v option) \<Rightarrow> (request \<Rightarrow> http_event) \<Rightarrow> request \<Rightarrow> error + 'v resolved" where
  "makeRequest parse net req =
     (case net req of
        Response statusCode chunks \<Rightarrow>
          (let data = body_text chunks
           in if success_status statusCode then
                (case parse data of Some v \<Rightarrow> Inr (Parsed v) | None \<Rightarrow> Inr (Raw data))
              else
                Inl (Error (lit ''Request failed: '' @ template_number statusCode @ lit '' - ''
                       @ data)))
      | RequestError message \<Rightarrow> Inl (Error message))"

text \<open>
  \<open>new URLSearchParams({...}).toString()\<close>: the application/x-www-form-urlencoded
  serialisation of the UTF-8 bytes of every name and value.
\<close>

definition upperHexDigit :: "nat \<Rightarrow> unit16" where
  "upperHexDigit d = (if d < 10 then of_nat (48 + d) else of_nat (55 + d))"

definition form_byte :: "byte \<Rightarrow> jsstring" where
  "form_byte b =
     (let n = unat b in
      if n = 0x20 then lit ''+''
      else if n = 0x2A \<or> n = 0x2D \<or> n = 0x2E \<or> (0x30 \<le> n \<and> n \<le> 0x39)
           \<or> (0x41 \<le> n \<and> n \<le> 0x5A) \<or> n = 0x5F \<or> (0x61 \<le> n \<and> n \<le> 0x7A)
      then [of_nat n]
      else [0x25, upperHexDigit (n div 16), upperHexDigit (n mod 16)])"

definition form_component :: "jsstring \<Rightarrow> jsstring" where
  "form_component s = concat (map form_byte (utf8_encode s))"

definition URLSearchParams_toString :: "(jsstring \<times> jsstring) list \<Rightarrow> jsstring" where
  "URLSearchParams_toString params =
     join (lit ''&'') (map (\<lambda>p. form_component (fst p) @ lit ''='' @ form_component (snd p)) params)"

definition byteLength :: "jsstring \<Rightarrow> nat" where
  "byteLength s = length (utf8_encode s)"

section \<open>The token store\<close>

text \<open>
  The constants of the module, set once at startup, and what the program reads and
  writes afterwards: the variable \<open>DROPBOX_REFRESH_TOKEN\<close> of \<open>process.env\<close> and the
  files, each a sequence of bytes. The field \<open>DROPBOX_REFRESH_TOKEN\<close> is the string that
  reading the variable gives, \<open>None\<close> when the variable is not set. Reading and writing
  a file are taken to succeed; the mode \<open>0o600\<close> of the token file is not modelled.
\<close>

record config =
  APP_KEY :: jsstring
  APP_SECRET :: jsstring
  TOKEN_FILE_PATH :: jsstring

record state =
  DROPBOX_REFRESH_TOKEN :: "jsstring option"
  files :: "jsstring \<rightharpoonup> byte list"

text \<open>
  An assignment to a variable of \<open>process.env\<close> hands the value to the operating
  system as a NUL-terminated UTF-8 string: the value ends before its first U+0000, and a
  lone surrogate becomes U+FFFD. \<open>env_value\<close> is the string that reading the variable
  gives after the assignment of \<open>s\<close>.
\<close>

definition env_value :: "jsstring \<Rightarrow> jsstring" where
  "env_value s = utf8_decode (takeWhile (\<lambda>b. b \<noteq> 0) (utf8_encode s))"

definition saveRefreshToken :: "config \<Rightarrow> jsstring \<Rightarrow> state \<Rightarrow> state" where
  "saveRefreshToken cfg token st =
     st\<lparr>files := (files st)(TOKEN_FILE_PATH cfg \<mapsto> utf8_encode token)\<rparr>"

definition loadRefreshToken :: "config \<Rightarrow> state \<Rightarrow> jsstring option" where
  "loadRefreshToken cfg st =
     (case files st (TOKEN_FILE_PATH cfg) of
        Some bytes \<Rightarrow> Some (trim (utf8_decode bytes))
      | None \<Rightarrow> None)"

section \<open>The auth manager\<close>

definition not_configured_message :: jsstring where
  "not_configured_message =
     join [0x0A]
       [lit ''Dropbox refresh token is not configured.'',
        lit ''Set DROPBOX_REFRESH_TOKEN (recommended) or create a token file.'',
        lit ''You can also use MCP tools:'',
        lit ''- dropbox_auth_get_url (open the URL, authorize, copy the code)'',
        lit ''- dropbox_auth_exchange_code (exchange code -> refresh token; optionally save)'']"

definition getRefreshToken :: "config \<Rightarrow> state \<Rightarrow> error + jsstring" where
  "getRefreshToken cfg st =
     (let refreshToken = DROPBOX_REFRESH_TOKEN st;
          refreshToken = (if \<not> truthy refreshToken then loadRefreshToken cfg st else refreshToken)
      in case refreshToken of
           None \<Rightarrow> Inl (Error not_configured_message)
         | Some token \<Rightarrow>
             if token = [] then Inl (Error not_configured_message) else Inr token)"

text \<open>The responses of the token endpoint, at the types the calls declare. The
  handler of \<open>dropbox_auth_exchange_code\<close> tests \<open>refresh_token\<close>, so it may be absent.\<close>

record token_response =
  access_token :: jsstring
  token_type :: jsstring
  expires_in :: nat
  refresh_token :: "jsstring option"

record token_pair =
  pair_access_token :: jsstring
  pair_refresh_token :: "jsstring option"

definition token_request :: "jsstring \<Rightarrow> request" where
  "token_request form =
     \<lparr> hostname = lit ''api.dropboxapi.com'',
       path = lit ''/oauth2/token'',
       http_method = lit ''POST'',
       headers =
         [(lit ''Content-Type'', lit ''application/x-www-form-urlencoded''),
          (lit ''Content-Length'', toString10 (byteLength form))],
       body = Some form \<rparr>"

definition getAccessToken ::
  "config \<Rightarrow> (jsstring \<Rightarrow> token_response option) \<Rightarrow> (request \<Rightarrow> http_event) \<Rightarrow> state
    \<Rightarrow> error + jsstring option" where
  "getAccessToken cfg parse net st =
     (case getRefreshToken cfg st of
        Inl e \<Rightarrow> Inl e
      | Inr refreshToken \<Rightarrow>
          (let form = URLSearchParams_toString
                 [(lit ''grant_type'', lit ''refresh_token''),
                  (lit ''refresh_token'', refreshToken),
                  (lit ''client_id'', APP_KEY cfg),
                  (lit ''client_secret'', APP_SECRET cfg)]
           in case makeRequest parse net (token_request form) of
                Inl e \<Rightarrow> Inl e
              | Inr (Parsed response) \<Rightarrow> Inr (Some (access_token response))
              | Inr (Raw raw) \<Rightarrow> Inr None))"

definition exchangeCodeForToken ::
  "config \<Rightarrow> (jsstring \<Rightarrow> token_pair option) \<Rightarrow> (request \<Rightarrow> http_event) \<Rightarrow> jsstring
    \<Rightarrow> error + token_pair resolved" where
  "exchangeCodeForToken cfg parse net authCode =
     (let form = URLSearchParams_toString
            [(lit ''code'', authCode),
             (lit ''grant_type'', lit ''authorization_code''),
             (lit ''client_id'', APP_KEY cfg),
             (lit ''client_secret'', APP_SECRET cfg)]
      in makeRequest parse net (token_request form))"

section \<open>The Dropbox operations\<close>

text \<open>
  \<open>escapeNonAscii\<close>: \<open>str.replace(/[\u007f-\uffff]/g, ...)\<close> rewrites every code unit
  from 0x7f up as \<open>"\\u" + ("0000" + c.charCodeAt(0).toString(16)).slice(-4)\<close>.
\<close>

definition escapeUnit :: "unit16 \<Rightarrow> jsstring" where
  "escapeUnit c =
     (if 0x7F \<le> c
      then [backslash, 0x75] @ slice_last 4 (lit ''0000'' @ toString16 (unat c))
      else [c])"

definition escapeNonAscii :: "jsstring \<Rightarrow> jsstring" where
  "escapeNonAscii str = concat (map escapeUnit str)"

text \<open>
  The request that \<open>downloadFile\<close> hands to \<open>makeRequest\<close>. \<open>accessToken\<close> is what
  \<open>getAccessToken\<close> returned, \<open>None\<close> for \<open>undefined\<close>;
  \<open>JSON.stringify({ path: filePath })\<close> has no gap.
\<close>

definition downloadFile_request :: "jsstring option \<Rightarrow> jsstring \<Rightarrow> request" where
  "downloadFile_request accessToken filePath =
     \<lparr> hostname = lit ''content.dropboxapi.com'',
       path = lit ''/2/files/download'',
       http_method = lit ''POST'',
       headers =
         [(lit ''Authorization'', lit ''Bearer '' @ template_string accessToken),
          (lit ''Dropbox-API-Arg'',
             escapeNonAscii (JSON_stringify_object [] [(lit ''path'', JString filePath)])),
          (lit ''Content-Type'', lit ''text/plain; charset=utf-8'')],
       body = None \<rparr>"

definition downloadFile ::
  "config \<Rightarrow> (jsstring \<Rightarrow> token_response option) \<Rightarrow> (jsstring \<Rightarrow> jsstring option)
    \<Rightarrow> (request \<Rightarrow> http_event) \<Rightarrow> state \<Rightarrow> jsstring \<Rightarrow> error + jsstring resolved" where
  "downloadFile cfg parse_token parse net st filePath =
     (case getAccessToken cfg parse_token net st of
        Inl e \<Rightarrow> Inl e
      | Inr accessToken \<Rightarrow> makeRequest parse net (downloadFile_request accessToken filePath))"

text \<open>\<open>listFolder\<close>: the body of the request is the JSON text of an object with the
  path and four flags.\<close>

record 'e list_folder_response =
  entries :: "'e list"
  cursor :: jsstring
  has_more :: bool

definition listFolder_body :: "jsstring \<Rightarrow> (jsstring \<times> json_value) list" where
  "listFolder_body folderPath =
     [(lit ''path'', JString (if folderPath = lit ''/'' then [] else folderPath)),
      (lit ''recursive'', JBoolean False),
      (lit ''include_media_info'', JBoolean False),
      (lit ''include_deleted'', JBoolean False),
      (lit ''include_has_explicit_shared_members'', JBoolean False)]"

definition listFolder_request :: "jsstring option \<Rightarrow> jsstring \<Rightarrow> request" where
  "listFolder_request accessToken folderPath =
     \<lparr> hostname = lit ''api.dropboxapi.com'',
       path = lit ''/2/files/list_folder'',
       http_method = lit ''POST'',
       headers =
         [(lit ''Authorization'', lit ''Bearer '' @ template_string accessToken),
          (lit ''Content-Type'', lit ''application/json'')],
       body = Some (JSON_stringify_object [] (listFolder_body folderPath)) \<rparr>"

definition listFolder ::
  "config \<Rightarrow> (jsstring \<Rightarrow> token_response option) \<Rightarrow> (jsstring \<Rightarrow> 'e list_folder_response option)
    \<Rightarrow> (request \<Rightarrow> http_event) \<Rightarrow> state \<Rightarrow> jsstring \<Rightarrow> error + 'e list option" where
  "listFolder cfg parse_token parse net st folderPath =
     (case getAccessToken cfg parse_token net st of
        Inl e \<Rightarrow> Inl e
      | Inr accessToken \<Rightarrow>
          (case makeRequest parse net (listFolder_request accessToken folderPath) of
             Inl e \<Rightarrow> Inl e
           | Inr (Parsed result) \<Rightarrow> Inr (Some (entries result))
           | Inr (Raw raw) \<Rightarrow> Inr None))"

text \<open>The local time that \<open>new Date()\<close> reads: \<open>getFullYear\<close>, \<open>getMonth\<close> (from 0),
  \<open>getDate\<close>, \<open>getHours\<close> and \<open>getMinutes\<close>.\<close>

record local_time =
  fullYear :: int
  month :: nat
  date :: nat
  hours :: nat
  minutes :: nat

text \<open>\<open>title.replace(/[/\\?%*:|"<>]/g, "-")\<close>: every code unit of the class is replaced.\<close>

definition forbidden :: "unit16 list" where
  "forbidden = [0x2F, 0x5C, 0x3F, 0x25, 0x2A, 0x3A, 0x7C, 0x22, 0x3C, 0x3E]"

definition replace_class :: "unit16 list \<Rightarrow> jsstring \<Rightarrow> jsstring \<Rightarrow> jsstring" where
  "replace_class cls replacement s =
     concat (map (\<lambda>c. if c \<in> set cls then replacement else [c]) s)"

definition generateFileName :: "local_time \<Rightarrow> jsstring \<Rightarrow> jsstring" where
  "generateFileName now title =
     (let year = fullYear now;
          month = padStart 2 (lit ''0'') (number_toString (int (month now + 1)));
          day = padStart 2 (lit ''0'') (number_toString (int (date now)));
          hours = padStart 2 (lit ''0'') (number_toString (int (hours now)));
          minutes = padStart 2 (lit ''0'') (number_toString (int (minutes now)));
          timestamp = number_toString year @ month @ day @ hours @ minutes;
          sanitizedTitle = replace_class forbidden (lit ''-'') title
      in timestamp @ lit ''-'' @ sanitizedTitle @ lit ''.md'')"

section \<open>The tool handlers\<close>

text \<open>
  The result of a tool call: the text of its one content item and \<open>isError\<close>. The
  handler catches every error and returns \<open>Error: \<close> and its message.
\<close>

record tool_result =
  content_text :: jsstring
  isError :: bool

definition error_result :: "error \<Rightarrow> tool_result" where
  "error_result e =
     (case e of Error message \<Rightarrow> \<lparr> content_text = lit ''Error: '' @ message, isError = True \<rparr>)"

definition or_empty :: "jsstring option \<Rightarrow> jsstring" where
  "or_empty v = (case v of None \<Rightarrow> [] | Some s \<Rightarrow> s)"

text \<open>\<open>dropbox_auth_status\<close>: the object \<open>{ configured, source }\<close> and the call.\<close>

definition auth_status_object :: "config \<Rightarrow> state \<Rightarrow> (jsstring \<times> json_value) list" where
  "auth_status_object cfg st =
     (let envToken = trim (or_empty (DROPBOX_REFRESH_TOKEN st));
          fileToken = trim (or_empty (loadRefreshToken cfg st));
          configured = (envToken \<noteq> [] \<or> fileToken \<noteq> []);
          source =
            (if envToken \<noteq> [] then lit ''env:DROPBOX_REFRESH_TOKEN''
             else if fileToken \<noteq> [] then lit ''file:'' @ TOKEN_FILE_PATH cfg
             else lit ''none'')
      in [(lit ''configured'', JBoolean configured), (lit ''source'', JString source)])"

definition dropbox_auth_status :: "config \<Rightarrow> state \<Rightarrow> tool_result" where
  "dropbox_auth_status cfg st =
     \<lparr> content_text = JSON_stringify_object (lit ''  '') (auth_status_object cfg st),
       isError = False \<rparr>"

text \<open>
  \<open>dropbox_auth_exchange_code\<close>: \<open>save\<close> is \<open>None\<close> when the argument is left out.
  \<open>tokens.refresh_token\<close> is \<open>undefined\<close> on a response that was not JSON. The call
  returns its result and the state it leaves.
\<close>

definition no_refresh_token_message :: jsstring where
  "no_refresh_token_message =
     lit ''Dropbox did not return a refresh_token. Ensure you requested offline access (token_access_type=offline) and the app is configured correctly.''"

definition tokens_refresh_token :: "token_pair resolved \<Rightarrow> jsstring option" where
  "tokens_refresh_token tokens =
     (case tokens of Parsed v \<Rightarrow> pair_refresh_token v | Raw raw \<Rightarrow> None)"

definition exchange_result_object ::
  "config \<Rightarrow> jsstring \<Rightarrow> bool \<Rightarrow> (jsstring \<times> json_value) list" where
  "exchange_result_object cfg refreshToken shouldSave =
     [(lit ''refresh_token'', JString refreshToken),
      (lit ''saved'', JBoolean shouldSave),
      (lit ''tokenFile'', if shouldSave then JString (TOKEN_FILE_PATH cfg) else JUndefined)]"

definition dropbox_auth_exchange_code ::
  "config \<Rightarrow> (jsstring \<Rightarrow> token_pair option) \<Rightarrow> (request \<Rightarrow> http_event) \<Rightarrow> jsstring
    \<Rightarrow> bool option \<Rightarrow> state \<Rightarrow> tool_result \<times> state" where
  "dropbox_auth_exchange_code cfg parse net authCode save st =
     (case exchangeCodeForToken cfg parse net authCode of
        Inl e \<Rightarrow> (error_result e, st)
      | Inr tokens \<Rightarrow>
          (case tokens_refresh_token tokens of
             None \<Rightarrow> (error_result (Error no_refresh_token_message), st)
           | Some refreshToken \<Rightarrow>
               if refreshToken = [] then (error_result (Error no_refresh_token_message), st)
               else
                 (let shouldSave = (save \<noteq> Some False);
                      st1 = (if shouldSave then saveRefreshToken cfg refreshToken st else st);
                      st2 = st1\<lparr>DROPBOX_REFRESH_TOKEN := Some (env_value refreshToken)\<rparr>
                  in (\<lparr> content_text =
                          JSON_stringify_object (lit ''  '')
                            (exchange_result_object cfg refreshToken shouldSave),
                        isError = False \<rparr>,
                      st2))))"

section \<open>Reference definitions for the claims\<close>

subsection \<open>The header value, code unit by code unit\<close>

text \<open>The four lowercase hexadecimal digits of a number below 65536.\<close>

definition hex4 :: "nat \<Rightarrow> jsstring" where
  "hex4 n =
     [hexDigit (n div 4096), hexDigit (n div 256 mod 16), hexDigit (n div 16 mod 16),
      hexDigit (n mod 16)]"

text \<open>The printable ASCII range that is safe in a header value.\<close>

definition printable :: "unit16 \<Rightarrow> bool" where
  "printable u \<longleftrightarrow> 0x20 \<le> u \<and> u \<le> 0x7E"

text \<open>
  What one code unit of \<open>filePath\<close> becomes in the header: the short escapes of JSON for
  backspace, tab, line feed, form feed and carriage return, a backslash before the double
  quote and the backslash, \<open>\uXXXX\<close> for the other control characters and for every
  code unit from 0x7f up, and the code unit itself otherwise.
\<close>

definition header_unit :: "unit16 \<Rightarrow> jsstring" where
  "header_unit c =
     (if c = 0x08 then [backslash, 0x62]
      else if c = 0x09 then [backslash, 0x74]
      else if c = 0x0A then [backslash, 0x6E]
      else if c = 0x0C then [backslash, 0x66]
      else if c = 0x0D then [backslash, 0x72]
      else if c = 0x22 then [backslash, dquote]
      else if c = 0x5C then [backslash, backslash]
      else if c < 0x20 \<or> 0x7F \<le> c then [backslash, 0x75] @ hex4 (unat c)
      else [c])"

text \<open>
  The header value as the specification words it: every code unit outside the printable
  range becomes \<open>\uXXXX\<close>, every code unit inside it is left as it is.
\<close>

definition spec_header_unit :: "unit16 \<Rightarrow> jsstring" where
  "spec_header_unit c = (if printable c then [c] else [backslash, 0x75] @ hex4 (unat c))"

definition spec_api_arg :: "jsstring \<Rightarrow> jsstring" where
  "spec_api_arg filePath =
     lit ''{'' @ [dquote] @ lit ''path'' @ [dquote] @ lit '':'' @ [dquote]
       @ concat (map spec_header_unit filePath) @ [dquote] @ lit ''}''"

subsection \<open>The file name\<close>

text \<open>The ranges of the getters of a \<open>Date\<close>.\<close>

definition clock_time :: "local_time \<Rightarrow> bool" where
  "clock_time t \<longleftrightarrow>
     month t < 12 \<and> 1 \<le> date t \<and> date t \<le> 31 \<and> hours t < 24 \<and> minutes t < 60"

definition digits2 :: "nat \<Rightarrow> jsstring" where
  "digits2 n = [decDigit (n div 10), decDigit (n mod 10)]"

definition digits4 :: "nat \<Rightarrow> jsstring" where
  "digits4 n =
     [decDigit (n div 1000), decDigit (n div 100 mod 10), decDigit (n div 10 mod 10),
      decDigit (n mod 10)]"

definition sanitize :: "unit16 \<Rightarrow> unit16" where
  "sanitize c =
     (if c = 0x2F \<or> c = 0x5C \<or> c = 0x3F \<or> c = 0x25 \<or> c = 0x2A \<or> c = 0x3A \<or> c = 0x7C
         \<or> c = 0x22 \<or> c = 0x3C \<or> c = 0x3E
      then 0x2D else c)"

text \<open>The file name as the specification words it: four digits of year, two each of
  month, day, hour and minute.\<close>

definition spec_fileName :: "local_time \<Rightarrow> jsstring \<Rightarrow> jsstring" where
  "spec_fileName t title =
     digits4 (nat (fullYear t)) @ digits2 (month t + 1) @ digits2 (date t) @ digits2 (hours t)
       @ digits2 (minutes t) @ lit ''-'' @ map sanitize title @ lit ''.md''"

subsection \<open>Well-formed strings\<close>

text \<open>A string without a lone surrogate.\<close>

fun well_formed :: "jsstring \<Rightarrow> bool" where
  "well_formed [] = True"
| "well_formed (c # cs) =
     (if isHighSurrogate c then
        (case cs of [] \<Rightarrow> False | d # ds \<Rightarrow> isLowSurrogate d \<and> well_formed ds)
      else \<not> isLowSurrogate c \<and> well_formed cs)"


subsection \<open>The texts of the results\<close>

text \<open>The trimmed token of the environment and of the file, empty when there is none.\<close>

definition env_token :: "state \<Rightarrow> jsstring" where
  "env_token st = trim (or_empty (DROPBOX_REFRESH_TOKEN st))"

definition file_token :: "config \<Rightarrow> state \<Rightarrow> jsstring" where
  "file_token cfg st =
     (case files st (TOKEN_FILE_PATH cfg) of None \<Rightarrow> [] | Some bytes \<Rightarrow> trim (utf8_decode bytes))"

text \<open>The JSON texts, with the gap of two spaces, of the results of
  \<open>dropbox_auth_status\<close> and \<open>dropbox_auth_exchange_code\<close>, and the body of the list
  request, without a gap.\<close>

definition status_text :: "bool \<Rightarrow> jsstring \<Rightarrow> jsstring" where
  "status_text configured source =
     lit ''{'' @ [0x0A] @ lit ''  '' @ [dquote] @ lit ''configured'' @ [dquote] @ lit '': ''
       @ (if configured then lit ''true'' else lit ''false'') @ lit '','' @ [0x0A]
       @ lit ''  '' @ [dquote] @ lit ''source'' @ [dquote] @ lit '': '' @ quoteJSONString source
       @ [0x0A] @ lit ''}''"

definition exchange_text_saved :: "config \<Rightarrow> jsstring \<Rightarrow> jsstring" where
  "exchange_text_saved cfg token =
     lit ''{'' @ [0x0A] @ lit ''  '' @ [dquote] @ lit ''refresh_token'' @ [dquote] @ lit '': ''
       @ quoteJSONString token @ lit '','' @ [0x0A]
       @ lit ''  '' @ [dquote] @ lit ''saved'' @ [dquote] @ lit '': true,'' @ [0x0A]
       @ lit ''  '' @ [dquote] @ lit ''tokenFile'' @ [dquote] @ lit '': ''
       @ quoteJSONString (TOKEN_FILE_PATH cfg) @ [0x0A] @ lit ''}''"

definition exchange_text_unsaved :: "jsstring \<Rightarrow> jsstring" where
  "exchange_text_unsaved token =
     lit ''{'' @ [0x0A] @ lit ''  '' @ [dquote] @ lit ''refresh_token'' @ [dquote] @ lit '': ''
       @ quoteJSONString token @ lit '','' @ [0x0A]
       @ lit ''  '' @ [dquote] @ lit ''saved'' @ [dquote] @ lit '': false'' @ [0x0A] @ lit ''}''"

definition list_folder_text :: "jsstring \<Rightarrow> jsstring" where
  "list_folder_text p =
     lit ''{'' @ [dquote] @ lit ''path'' @ [dquote] @ lit '':'' @ quoteJSONString p @ lit '',''
       @ [dquote] @ lit ''recursive'' @ [dquote] @ lit '':false,''
       @ [dquote] @ lit ''include_media_info'' @ [dquote] @ lit '':false,''
       @ [dquote] @ lit ''include_deleted'' @ [dquote] @ lit '':false,''
       @ [dquote] @ lit ''include_has_explicit_shared_members'' @ [dquote] @ lit '':false}''"

subsection \<open>An example configuration\<close>

definition example_config :: config where
  "example_config =
     \<lparr> APP_KEY = lit ''key'', APP_SECRET = lit ''secret'',
       TOKEN_FILE_PATH = lit ''/home/user/.dropbox_token'' \<rparr>"

text \<open>
  A token endpoint that answers every request with status 200 and the JSON text of
  \<open>{access_token: "x", refresh_token}\<close>, and \<open>JSON.parse\<close> on that text.
\<close>

definition example_body :: "jsstring option \<Rightarrow> jsstring" where
  "example_body token =
     JSON_stringify_object []
       [(lit ''access_token'', JString (lit ''x'')),
        (lit ''refresh_token'', case token of None \<Rightarrow> JUndefined | Some t \<Rightarrow> JString t)]"

definition example_parse :: "jsstring option \<Rightarrow> jsstring \<Rightarrow> token_pair option" where
  "example_parse token data =
     (if data = example_body token
      then Some \<lparr> pair_access_token = lit ''x'', pair_refresh_token = token \<rparr>
      else None)"

definition example_net :: "jsstring option \<Rightarrow> request \<Rightarrow> http_event" where
  "example_net token req = Response (Some 200) [utf8_encode (example_body token)]"

text \<open>The call of \<open>dropbox_auth_exchange_code\<close> with the code \<open>abc\<close> against that
  endpoint, and the state with no token anywhere.\<close>

definition example_call :: "jsstring option \<Rightarrow> bool option \<Rightarrow> state \<Rightarrow> tool_result \<times> state" where
  "example_call token save st =
     dropbox_auth_exchange_code example_config (example_parse token) (example_net token)
       (lit ''abc'') save st"

definition no_token_state :: state where
  "no_token_state = \<lparr> DROPBOX_REFRESH_TOKEN = None, files = Map.empty \<rparr>"

section \<open>Hexadecimal digits and escaping\<close>

lemma div16_div16: "(n::nat) div 16 div 16 = n div 256"
  by (simp add: div_mult2_eq [symmetric])

lemma div16_div256: "(n::nat) div 16 div 256 = n div 4096"
  by (simp add: div_mult2_eq [symmetric])

lemma toString16_1: "n < 16 \<Longrightarrow> toString16 n = [hexDigit n]"
  by (simp add: toString16.simps)

lemma toString16_2: "16 \<le> n \<Longrightarrow> n < 256 \<Longrightarrow> toString16 n = [hexDigit (n div 16), hexDigit (n mod 16)]"
  by (subst toString16.simps) (simp add: toString16_1)

lemma toString16_3: "256 \<le> n \<Longrightarrow> n < 4096 \<Longrightarrow>
  toString16 n = [hexDigit (n div 256), hexDigit (n div 16 mod 16), hexDigit (n mod 16)]"
  by (subst toString16.simps) (simp add: toString16_2 div16_div16)

lemma toString16_4: "4096 \<le> n \<Longrightarrow> n < 65536 \<Longrightarrow>
  toString16 n = [hexDigit (n div 4096), hexDigit (n div 256 mod 16), hexDigit (n div 16 mod 16), hexDigit (n mod 16)]"
  by (subst toString16.simps) (simp add: toString16_3 div16_div16 div16_div256)

lemma hexDigit_0: "hexDigit 0 = 0x30"
  by (simp add: hexDigit_def)

lemma lit_0000: "lit ''0000'' = [0x30, 0x30, 0x30, 0x30]"
  by (simp add: lit_def)

lemma replicate_3: "replicate 3 x = [x, x, x]"
  by (simp add: numeral_3_eq_3)

lemma replicate_2: "replicate 2 x = [x, x]"
  by (simp add: numeral_2_eq_2)

lemma slice_pad_hex4:
  assumes "n < 65536"
  shows "slice_last 4 (lit ''0000'' @ toString16 n) = hex4 n"
proof -
  consider "n < 16" | "16 \<le> n" "n < 256" | "256 \<le> n" "n < 4096" | "4096 \<le> n"
    by linarith
  then show ?thesis
  proof cases
    case 1
    then show ?thesis
      by (simp add: toString16_1 slice_last_def hex4_def lit_0000 hexDigit_0)
  next
    case 2
    then show ?thesis
      by (simp add: toString16_2 slice_last_def hex4_def lit_0000 hexDigit_0)
  next
    case 3
    then show ?thesis
      by (simp add: toString16_3 slice_last_def hex4_def lit_0000 hexDigit_0)
  next
    case 4
    with assms show ?thesis
      by (simp add: toString16_4 slice_last_def hex4_def lit_0000)
  qed
qed

lemma pad_hex4:
  assumes "n < 65536"
  shows "replicate (4 - length (toString16 n)) 0x30 @ toString16 n = hex4 n"
proof -
  consider "n < 16" | "16 \<le> n" "n < 256" | "256 \<le> n" "n < 4096" | "4096 \<le> n"
    by linarith
  then show ?thesis
  proof cases
    case 1
    then show ?thesis
      by (simp add: toString16_1 hex4_def hexDigit_0 replicate_3)
  next
    case 2
    then show ?thesis
      by (simp add: toString16_2 hex4_def hexDigit_0 replicate_2)
  next
    case 3
    then show ?thesis
      by (simp add: toString16_3 hex4_def hexDigit_0)
  next
    case 4
    with assms show ?thesis
      by (simp add: toString16_4 hex4_def)
  qed
qed

lemma unat_unit16_bound: "unat (c :: unit16) < 65536"
  using unsigned_less [of c, where ?'a = nat] by simp

lemma hexDigit_printable:
  assumes "d < 16"
  shows "0x30 \<le> hexDigit d \<and> hexDigit d \<le> 0x66"
proof -
  have "unat (of_nat (48 + d) :: unit16) = 48 + d" "unat (of_nat (87 + d) :: unit16) = 87 + d"
    using assms by (simp_all only: unat_of_nat) simp_all
  then show ?thesis
    using assms unfolding hexDigit_def word_le_nat_alt by (simp del: of_nat_add)
qed



lemma printable_hexDigit: "d < 16 \<Longrightarrow> printable (hexDigit d)"
  using hexDigit_printable [of d] by (simp add: printable_def word_le_nat_alt)

lemma printable_hex4: "n < 65536 \<Longrightarrow> list_all printable (hex4 n)"
  by (simp add: hex4_def printable_hexDigit)

lemma escapeNonAscii_append: "escapeNonAscii (xs @ ys) = escapeNonAscii xs @ escapeNonAscii ys"
  by (simp add: escapeNonAscii_def)

lemma escapeNonAscii_printable: "list_all printable xs \<Longrightarrow> escapeNonAscii xs = xs"
  by (induction xs) (auto simp: escapeNonAscii_def escapeUnit_def printable_def word_le_nat_alt)

lemma unicodeEscape_hex4: "unicodeEscape c = [backslash, 0x75] @ hex4 (unat c)"
  by (simp add: unicodeEscape_def Let_def pad_hex4 unat_unit16_bound)

lemma printable_unicodeEscape: "list_all printable (unicodeEscape c)"
  using printable_hex4 [OF unat_unit16_bound, of c]
  by (simp add: unicodeEscape_hex4 printable_def backslash_def)

lemma escapeUnit_high: "0x7F \<le> c \<Longrightarrow> escapeUnit c = [backslash, 0x75] @ hex4 (unat c)"
  by (simp add: escapeUnit_def slice_pad_hex4 unat_unit16_bound)

lemma escapeUnit_low: "c < 0x7F \<Longrightarrow> escapeUnit c = [c]"
  by (simp add: escapeUnit_def word_le_nat_alt word_less_nat_alt)

lemma surrogate_high: "isHighSurrogate c \<or> isLowSurrogate c \<Longrightarrow> 0x7F \<le> c \<and> \<not> c < 0x20 \<and> c \<noteq> 0x5C \<and> c \<noteq> 0x22
   \<and> c \<noteq> 0x08 \<and> c \<noteq> 0x09 \<and> c \<noteq> 0x0A \<and> c \<noteq> 0x0C \<and> c \<noteq> 0x0D"
  by (auto simp: isHighSurrogate_def isLowSurrogate_def word_le_nat_alt word_less_nat_alt)

lemma header_unit_surrogate:
  "isHighSurrogate c \<or> isLowSurrogate c \<Longrightarrow> header_unit c = [backslash, 0x75] @ hex4 (unat c)"
  using surrogate_high [of c] by (simp add: header_unit_def)

lemma escapeNonAscii_unicodeEscape: "escapeNonAscii (unicodeEscape c) = unicodeEscape c"
  by (rule escapeNonAscii_printable [OF printable_unicodeEscape])

lemma escape_quoteCodeUnit: "escapeNonAscii (quoteCodeUnit c) = header_unit c"
proof (cases "c < 0x20")
  case True
  then show ?thesis
    using escapeNonAscii_unicodeEscape [of c]
    by (auto simp: quoteCodeUnit_def header_unit_def escapeNonAscii_def escapeUnit_def
        backslash_def dquote_def unicodeEscape_hex4)
next
  case False
  show ?thesis
  proof (cases "0x7F \<le> c")
    case True
    with False show ?thesis
      by (auto simp: quoteCodeUnit_def header_unit_def escapeNonAscii_def escapeUnit_high
        backslash_def dquote_def)
  next
    case False
    with \<open>\<not> c < 0x20\<close> show ?thesis
      by (auto simp: quoteCodeUnit_def header_unit_def escapeNonAscii_def
        escapeUnit_def backslash_def dquote_def)
  qed
qed

lemma escape_lone_surrogate:
  assumes "isHighSurrogate c \<or> isLowSurrogate c"
  shows "escapeNonAscii (unicodeEscape c) = header_unit c"
  using assms unfolding escapeNonAscii_unicodeEscape
  by (simp add: header_unit_surrogate unicodeEscape_hex4)

lemma escape_surrogate_pair:
  assumes "isHighSurrogate c" "isLowSurrogate d"
  shows "escapeNonAscii [c, d] = header_unit c @ header_unit d"
  using assms surrogate_high [of c] surrogate_high [of d]
  by (simp add: header_unit_surrogate escapeNonAscii_def escapeUnit_high)

lemma escape_quoteJSONChars:
  "escapeNonAscii (quoteJSONChars s) = concat (map header_unit s)"
proof (induction s rule: quoteJSONChars.induct)
  case 1
  show ?case by (simp add: escapeNonAscii_def)
next
  case (2 c cs)
  show ?case
  proof (cases "isHighSurrogate c")
    case hi: True
    show ?thesis
    proof (cases cs)
      case Nil
      have "quoteJSONChars (c # cs) = unicodeEscape c"
        using hi Nil by simp
      then show ?thesis
        using hi Nil by (simp add: escape_lone_surrogate)
    next
      case (Cons d ds)
      show ?thesis
      proof (cases "isLowSurrogate d")
        case True
        have q: "quoteJSONChars (c # cs) = [c, d] @ quoteJSONChars ds"
          using hi Cons True by simp
        have IH: "escapeNonAscii (quoteJSONChars ds) = concat (map header_unit ds)"
          by (rule 2(1) [OF hi Cons True])
        show ?thesis
          unfolding q escapeNonAscii_append IH escape_surrogate_pair [OF hi True]
          by (simp add: Cons)
      next
        case False
        have q: "quoteJSONChars (c # cs) = unicodeEscape c @ quoteJSONChars cs"
          using hi Cons False by simp
        have IH: "escapeNonAscii (quoteJSONChars cs) = concat (map header_unit cs)"
          by (rule 2(2) [OF hi Cons False])
        show ?thesis
          unfolding q escapeNonAscii_append IH using hi
          by (simp add: escape_lone_surrogate)
      qed
    qed
  next
    case nhi: False
    show ?thesis
    proof (cases "isLowSurrogate c")
      case True
      have q: "quoteJSONChars (c # cs) = unicodeEscape c @ quoteJSONChars cs"
        using nhi True by simp
      have IH: "escapeNonAscii (quoteJSONChars cs) = concat (map header_unit cs)"
        by (rule 2(3) [OF nhi True])
      show ?thesis
        unfolding q escapeNonAscii_append IH using True
        by (simp add: escape_lone_surrogate)
    next
      case False
      have q: "quoteJSONChars (c # cs) = quoteCodeUnit c @ quoteJSONChars cs"
        using nhi False by simp
      have IH: "escapeNonAscii (quoteJSONChars cs) = concat (map header_unit cs)"
        by (rule 2(4) [OF nhi False])
      show ?thesis
        unfolding q escapeNonAscii_append IH
        by (simp add: escape_quoteCodeUnit)
    qed
  qed
qed

lemma printable_header_unit: "list_all printable (header_unit c)"
  using printable_hex4 [OF unat_unit16_bound, of c]
  by (auto simp: header_unit_def printable_def backslash_def dquote_def word_le_nat_alt word_less_nat_alt)

lemma printable_concat_header_unit: "list_all printable (concat (map header_unit s))"
  by (induction s) (simp_all add: printable_header_unit)

section \<open>Decimal digits, padding and the sanitised title\<close>

lemma toString10_1: "n < 10 \<Longrightarrow> toString10 n = [decDigit n]"
  by (simp add: toString10.simps)

lemma toString10_2: "10 \<le> n \<Longrightarrow> n < 100 \<Longrightarrow> toString10 n = digits2 n"
  by (subst toString10.simps) (simp add: toString10_1 digits2_def)

lemma toString10_3:
  "100 \<le> n \<Longrightarrow> n < 1000 \<Longrightarrow>
   toString10 n = [decDigit (n div 100), decDigit (n div 10 mod 10), decDigit (n mod 10)]"
  by (subst toString10.simps) (simp add: toString10_2 digits2_def div_mult2_eq [symmetric])

lemma toString10_4: "1000 \<le> n \<Longrightarrow> n < 10000 \<Longrightarrow> toString10 n = digits4 n"
  by (subst toString10.simps) (simp add: toString10_3 digits4_def div_mult2_eq [symmetric])

lemma decDigit_0: "decDigit 0 = 0x30"
  by (simp add: decDigit_def)

lemma padStart_2:
  assumes "n < 100"
  shows "padStart 2 (lit ''0'') (number_toString (int n)) = digits2 n"
proof (cases "n < 10")
  case True
  then show ?thesis
    by (simp add: padStart_def number_toString_def toString10_1 digits2_def lit_def decDigit_0)
next
  case False
  with assms show ?thesis
    by (simp add: padStart_def number_toString_def toString10_2) (simp add: digits2_def)
qed

lemma replace_forbidden: "replace_class forbidden (lit ''-'') s = map sanitize s"
  by (induction s) (auto simp: replace_class_def forbidden_def sanitize_def lit_def)

lemma year_four_digits:
  assumes "1000 \<le> y" "y \<le> 9999"
  shows "number_toString y = digits4 (nat y)"
  using assms by (simp add: number_toString_def toString10_4)


section \<open>The UTF-8 round trip\<close>

lemma unat_byte: "k < 256 \<Longrightarrow> unat (of_nat k :: byte) = k"
  by (simp add: unat_of_nat)

lemma unat_unit: "k < 65536 \<Longrightarrow> unat (of_nat k :: unit16) = k"
  by (simp add: unat_of_nat)

lemma continuation_1:
  "lower \<le> unat b \<Longrightarrow> unat b \<le> upper \<Longrightarrow>
   continuation 1 lower upper cp (b # bs) k = (Some (cp * 64 + (unat b - 0x80)), Suc k)"
  by simp

lemma continuation_2:
  "lower \<le> unat b \<Longrightarrow> unat b \<le> upper \<Longrightarrow>
   continuation 2 lower upper cp (b # bs) k
     = continuation 1 0x80 0xBF (cp * 64 + (unat b - 0x80)) bs (Suc k)"
  by (simp add: numeral_2_eq_2)

lemma continuation_3:
  "lower \<le> unat b \<Longrightarrow> unat b \<le> upper \<Longrightarrow>
   continuation 3 lower upper cp (b # bs) k
     = continuation 2 0x80 0xBF (cp * 64 + (unat b - 0x80)) bs (Suc k)"
  by (simp add: numeral_3_eq_3 numeral_2_eq_2)

lemma decode_1:
  assumes "n < 0x80"
  shows "utf8_decode (of_nat n # rest) = utf16_units (Some n) @ utf8_decode rest"
  using assms by (simp add: utf8_sequence_def unat_byte)

lemma decode_2:
  assumes "0xC2 \<le> n1" "n1 \<le> 0xDF" "0x80 \<le> n2" "n2 \<le> 0xBF"
  shows "utf8_decode (of_nat n1 # of_nat n2 # rest)
    = utf16_units (Some ((n1 - 0xC0) * 64 + (n2 - 0x80))) @ utf8_decode rest"
proof -
  have u: "unat (of_nat n1 :: byte) = n1" "unat (of_nat n2 :: byte) = n2"
    using assms by (simp_all add: unat_byte)
  have "utf8_sequence (of_nat n1) (of_nat n2 # rest)
      = (Some ((n1 - 0xC0) * 64 + (n2 - 0x80)), 1)"
    using assms by (simp add: utf8_sequence_def u continuation_1)
  then show ?thesis by simp
qed

lemma decode_3:
  assumes "0xE0 \<le> n1" "n1 \<le> 0xEF"
    and "(if n1 = 0xE0 then 0xA0 else 0x80) \<le> n2" "n2 \<le> (if n1 = 0xED then 0x9F else 0xBF)"
    and "0x80 \<le> n3" "n3 \<le> 0xBF"
  shows "utf8_decode (of_nat n1 # of_nat n2 # of_nat n3 # rest)
    = utf16_units (Some (((n1 - 0xE0) * 64 + (n2 - 0x80)) * 64 + (n3 - 0x80))) @ utf8_decode rest"
proof -
  have "n2 < 256"
    using assms(4) by (simp split: if_splits)
  then have u: "unat (of_nat n1 :: byte) = n1" "unat (of_nat n2 :: byte) = n2"
      "unat (of_nat n3 :: byte) = n3"
    using assms by (simp_all add: unat_byte)
  have "utf8_sequence (of_nat n1) (of_nat n2 # of_nat n3 # rest)
      = (Some (((n1 - 0xE0) * 64 + (n2 - 0x80)) * 64 + (n3 - 0x80)), 2)"
    using assms by (simp add: utf8_sequence_def u continuation_1 continuation_2)
  then show ?thesis by simp
qed

lemma decode_4:
  assumes "0xF0 \<le> n1" "n1 \<le> 0xF4"
    and "(if n1 = 0xF0 then 0x90 else 0x80) \<le> n2" "n2 \<le> (if n1 = 0xF4 then 0x8F else 0xBF)"
    and "0x80 \<le> n3" "n3 \<le> 0xBF" "0x80 \<le> n4" "n4 \<le> 0xBF"
  shows "utf8_decode (of_nat n1 # of_nat n2 # of_nat n3 # of_nat n4 # rest)
    = utf16_units (Some ((((n1 - 0xF0) * 64 + (n2 - 0x80)) * 64 + (n3 - 0x80)) * 64 + (n4 - 0x80)))
        @ utf8_decode rest"
proof -
  have "n2 < 256"
    using assms(4) by (simp split: if_splits)
  then have u: "unat (of_nat n1 :: byte) = n1" "unat (of_nat n2 :: byte) = n2"
      "unat (of_nat n3 :: byte) = n3" "unat (of_nat n4 :: byte) = n4"
    using assms by (simp_all add: unat_byte)
  have "utf8_sequence (of_nat n1) (of_nat n2 # of_nat n3 # of_nat n4 # rest)
      = (Some ((((n1 - 0xF0) * 64 + (n2 - 0x80)) * 64 + (n3 - 0x80)) * 64 + (n4 - 0x80)), 3)"
    using assms by (simp add: utf8_sequence_def u continuation_1 continuation_2 continuation_3)
  then show ?thesis by (simp add: numeral_3_eq_3)
qed



lemma split_64: "(cp::nat) = (cp div 64) * 64 + cp mod 64"
  by simp

lemma split_4096: "(cp::nat) = (cp div 4096) * 4096 + (cp div 64 mod 64) * 64 + cp mod 64"
proof -
  have "cp div 64 = (cp div 64 div 64) * 64 + cp div 64 mod 64"
    by simp
  moreover have "cp div 64 div 64 = cp div 4096"
    by (simp add: div_mult2_eq [symmetric])
  ultimately have "cp div 64 = (cp div 4096) * 64 + cp div 64 mod 64"
    by simp
  then have "(cp div 64) * 64 = (cp div 4096) * 4096 + (cp div 64 mod 64) * 64"
    by simp
  then show ?thesis
    using split_64 [of cp] by linarith
qed

lemma split_262144:
  "(cp::nat) = (cp div 262144) * 262144 + (cp div 4096 mod 64) * 4096 + (cp div 64 mod 64) * 64
     + cp mod 64"
proof -
  have "cp div 4096 = (cp div 4096 div 64) * 64 + cp div 4096 mod 64"
    by simp
  moreover have "cp div 4096 div 64 = cp div 262144"
    by (simp add: div_mult2_eq [symmetric])
  ultimately have "cp div 4096 = (cp div 262144) * 64 + cp div 4096 mod 64"
    by simp
  then have "(cp div 4096) * 4096 = (cp div 262144) * 262144 + (cp div 4096 mod 64) * 4096"
    by simp
  then show ?thesis
    using split_4096 [of cp] by linarith
qed

lemma encode_2_ok:
  assumes "0x80 \<le> cp" "cp < 0x800"
  shows "utf8_decode ([of_nat (0xC0 + cp div 64), of_nat (0x80 + cp mod 64)] @ rest)
    = utf16_units (Some cp) @ utf8_decode rest"
proof -
  define a where "a = cp div 64"
  define c where "c = cp mod 64"
  have cp: "cp = a * 64 + c" and c: "c < 64"
    by (simp_all add: a_def c_def)
  have a: "2 \<le> a" "a \<le> 31"
    using assms cp c by linarith+
  have "utf8_decode (of_nat (0xC0 + a) # of_nat (0x80 + c) # rest)
      = utf16_units (Some ((0xC0 + a - 0xC0) * 64 + (0x80 + c - 0x80))) @ utf8_decode rest"
    using a c by (intro decode_2) simp_all
  then show ?thesis
    by (simp add: cp [symmetric]) (simp add: a_def c_def)
qed

lemma encode_3_ok:
  assumes "0x800 \<le> cp" "cp < 0x10000" "\<not> (0xD800 \<le> cp \<and> cp \<le> 0xDFFF)"
  shows "utf8_decode ([of_nat (0xE0 + cp div 4096), of_nat (0x80 + cp div 64 mod 64),
      of_nat (0x80 + cp mod 64)] @ rest)
    = utf16_units (Some cp) @ utf8_decode rest"
proof -
  define a where "a = cp div 4096"
  define b where "b = cp div 64 mod 64"
  define c where "c = cp mod 64"
  have cp: "cp = a * 4096 + b * 64 + c" and b: "b < 64" and c: "c < 64"
    using split_4096 [of cp] by (simp_all add: a_def b_def c_def)
  have a: "a \<le> 15"
    using assms cp b c by linarith
  have lo: "a = 0 \<Longrightarrow> 32 \<le> b"
    using assms cp b c by simp
  have hi: "a = 13 \<Longrightarrow> b \<le> 31"
    using assms cp b c by simp
  have "utf8_decode (of_nat (0xE0 + a) # of_nat (0x80 + b) # of_nat (0x80 + c) # rest)
      = utf16_units (Some (((0xE0 + a - 0xE0) * 64 + (0x80 + b - 0x80)) * 64 + (0x80 + c - 0x80)))
          @ utf8_decode rest"
    using a b c lo hi by (intro decode_3) simp_all
  moreover have "((0xE0 + a - 0xE0) * 64 + (0x80 + b - 0x80)) * 64 + (0x80 + c - 0x80) = cp"
    using cp by simp
  ultimately show ?thesis
    by (simp add: a_def b_def c_def)
qed

lemma encode_4_ok:
  assumes "0x10000 \<le> cp" "cp < 0x110000"
  shows "utf8_decode ([of_nat (0xF0 + cp div 262144), of_nat (0x80 + cp div 4096 mod 64),
      of_nat (0x80 + cp div 64 mod 64), of_nat (0x80 + cp mod 64)] @ rest)
    = utf16_units (Some cp) @ utf8_decode rest"
proof -
  define a where "a = cp div 262144"
  define b where "b = cp div 4096 mod 64"
  define c where "c = cp div 64 mod 64"
  define d where "d = cp mod 64"
  have cp: "cp = a * 262144 + b * 4096 + c * 64 + d" and b: "b < 64" and c: "c < 64"
    and d: "d < 64"
    using split_262144 [of cp] by (simp_all add: a_def b_def c_def d_def)
  have a: "a \<le> 4"
    using assms cp b c d by linarith
  have lo: "a = 0 \<Longrightarrow> 16 \<le> b"
    using assms cp b c d by simp
  have hi: "a = 4 \<Longrightarrow> b \<le> 15"
    using assms cp b c d by simp
  have "utf8_decode (of_nat (0xF0 + a) # of_nat (0x80 + b) # of_nat (0x80 + c)
        # of_nat (0x80 + d) # rest)
      = utf16_units (Some ((((0xF0 + a - 0xF0) * 64 + (0x80 + b - 0x80)) * 64
          + (0x80 + c - 0x80)) * 64 + (0x80 + d - 0x80))) @ utf8_decode rest"
    using a b c d lo hi by (intro decode_4) simp_all
  moreover have "(((0xF0 + a - 0xF0) * 64 + (0x80 + b - 0x80)) * 64 + (0x80 + c - 0x80)) * 64
      + (0x80 + d - 0x80) = cp"
    using cp by simp
  ultimately show ?thesis
    by (simp add: a_def b_def c_def d_def)
qed

lemma decode_encode_cp:
  assumes "cp < 0x110000" "\<not> (0xD800 \<le> cp \<and> cp \<le> 0xDFFF)"
  shows "utf8_decode (encode_code_point cp @ rest) = utf16_units (Some cp) @ utf8_decode rest"
proof -
  consider "cp < 0x80" | "0x80 \<le> cp" "cp < 0x800" | "0x800 \<le> cp" "cp < 0x10000"
    | "0x10000 \<le> cp"
    by linarith
  then show ?thesis
  proof cases
    case 1
    then show ?thesis
      using decode_1 [of cp rest] by (simp add: encode_code_point_def)
  next
    case 2
    then show ?thesis
      using encode_2_ok [of cp rest] by (simp add: encode_code_point_def)
  next
    case 3
    then show ?thesis
      using encode_3_ok [of cp rest] assms by (simp add: encode_code_point_def)
  next
    case 4
    then show ?thesis
      using encode_4_ok [of cp rest] assms by (simp add: encode_code_point_def)
  qed
qed



lemma isHighSurrogate_unat: "isHighSurrogate c \<longleftrightarrow> 0xD800 \<le> unat c \<and> unat c \<le> 0xDBFF"
  by (simp add: isHighSurrogate_def word_le_nat_alt)

lemma isLowSurrogate_unat: "isLowSurrogate c \<longleftrightarrow> 0xDC00 \<le> unat c \<and> unat c \<le> 0xDFFF"
  by (simp add: isLowSurrogate_def word_le_nat_alt)

lemma utf16_units_bmp: "utf16_units (Some (unat (c :: unit16))) = [c]"
  using unat_unit16_bound [of c] by (simp add: utf16_units_def)

lemma utf16_units_pair:
  assumes "isHighSurrogate c" "isLowSurrogate d"
  shows "utf16_units (Some (code_point c d)) = [c, d]"
proof -
  define h where "h = unat c - 0xD800"
  define l where "l = unat d - 0xDC00"
  have h: "unat c = 0xD800 + h" and l: "unat d = 0xDC00 + l" "l < 1024"
    using assms unfolding h_def l_def isHighSurrogate_unat isLowSurrogate_unat by linarith+
  have cp: "code_point c d = 0x10000 + (h * 1024 + l)"
    by (simp add: code_point_def h_def l_def)
  have "(h * 1024 + l) div 1024 = h" "(h * 1024 + l) mod 1024 = l"
    using l(2) by simp_all
  then have "utf16_units (Some (code_point c d)) = [of_nat (unat c), of_nat (unat d)]"
    unfolding cp utf16_units_def h l(1) by simp
  then show ?thesis by simp
qed

lemma code_point_range:
  assumes "isHighSurrogate c" "isLowSurrogate d"
  shows "code_point c d < 0x110000 \<and> \<not> (0xD800 \<le> code_point c d \<and> code_point c d \<le> 0xDFFF)"
  using assms unfolding code_point_def isHighSurrogate_unat isLowSurrogate_unat by linarith

lemma utf8_round_trip: "well_formed s \<Longrightarrow> utf8_decode (utf8_encode s) = s"
proof (induction s rule: utf8_encode.induct)
  case 1
  show ?case by simp
next
  case (2 c cs)
  show ?case
  proof (cases "isHighSurrogate c")
    case hi: True
    with "2.prems" obtain d ds where cs: "cs = d # ds" and lo: "isLowSurrogate d"
      and wf: "well_formed ds"
      by (auto split: list.splits)
    have IH: "utf8_decode (utf8_encode ds) = ds"
      by (rule "2.IH"(1) [OF hi cs lo wf])
    have "utf8_encode (c # cs) = encode_code_point (code_point c d) @ utf8_encode ds"
      using hi cs lo by simp
    then show ?thesis
      using code_point_range [OF hi lo] IH cs
      by (simp add: decode_encode_cp utf16_units_pair [OF hi lo])
  next
    case nhi: False
    with "2.prems" have nlo: "\<not> isLowSurrogate c" and wf: "well_formed cs"
      by simp_all
    have IH: "utf8_decode (utf8_encode cs) = cs"
      by (rule "2.IH"(4) [OF nhi nlo wf])
    have r: "unat c < 0x110000" "\<not> (0xD800 \<le> unat c \<and> unat c \<le> 0xDFFF)"
      using unat_unit16_bound [of c] nhi nlo
      unfolding isHighSurrogate_unat isLowSurrogate_unat by linarith+
    have "utf8_encode (c # cs) = encode_code_point (unat c) @ utf8_encode cs"
      using nhi nlo by simp
    then show ?thesis
      using IH by (simp add: decode_encode_cp [OF r] utf16_units_bmp)
  qed
qed

text \<open>The value that an assignment leaves in a variable of the environment.\<close>

lemma byte_nonzero: "0 < n \<Longrightarrow> n < 256 \<Longrightarrow> (of_nat n :: byte) \<noteq> 0"
  using unat_byte [of n] by (metis less_numeral_extra(3) unat_0)

lemma encode_code_point_nonzero:
  assumes "0 < cp" "cp < 0x110000"
  shows "0 \<notin> set (encode_code_point cp)"
proof -
  have low: "(of_nat (0x80 + k mod 64) :: byte) \<noteq> 0" for k :: nat
  proof (rule byte_nonzero)
    have "k mod 64 < 64" by simp
    then show "0x80 + k mod 64 < 256" by linarith
  qed simp
  consider "cp < 0x80" | "0x80 \<le> cp" "cp < 0x800" | "0x800 \<le> cp" "cp < 0x10000"
    | "0x10000 \<le> cp"
    by linarith
  then show ?thesis
  proof cases
    case 1
    with assms(1) have "(of_nat cp :: byte) \<noteq> 0"
      by (intro byte_nonzero) simp_all
    with 1 show ?thesis
      by (simp add: encode_code_point_def)
  next
    case 2
    have "cp div 64 < 32"
      using 2 by simp
    then have "(of_nat (0xC0 + cp div 64) :: byte) \<noteq> 0"
      by (intro byte_nonzero) simp_all
    with 2 low [of cp] show ?thesis
      by (simp add: encode_code_point_def del: of_nat_add of_nat_numeral)
  next
    case 3
    have "cp div 4096 < 16"
      using 3 by simp
    then have "(of_nat (0xE0 + cp div 4096) :: byte) \<noteq> 0"
      by (intro byte_nonzero) simp_all
    with 3 low [of cp] low [of "cp div 64"] show ?thesis
      by (simp add: encode_code_point_def del: of_nat_add of_nat_numeral)
  next
    case 4
    have "cp div 262144 < 5"
      using assms(2) by simp
    then have "(of_nat (0xF0 + cp div 262144) :: byte) \<noteq> 0"
      by (intro byte_nonzero) simp_all
    with 4 low [of cp] low [of "cp div 64"] low [of "cp div 4096"] show ?thesis
      by (simp add: encode_code_point_def del: of_nat_add of_nat_numeral)
  qed
qed

lemma utf8_encode_nonzero: "0 \<notin> set s \<Longrightarrow> 0 \<notin> set (utf8_encode s)"
proof (induction s rule: utf8_encode.induct)
  case 1
  show ?case by simp
next
  case (2 c cs)
  from "2.prems" have c: "c \<noteq> 0" and cs: "0 \<notin> set cs"
    by auto
  have rep: "0 \<notin> set replacement_bytes"
    by (simp add: replacement_bytes_def)
  show ?case
  proof (cases "isHighSurrogate c")
    case hi: True
    show ?thesis
    proof (cases cs)
      case Nil
      with hi rep show ?thesis by simp
    next
      case (Cons d ds)
      show ?thesis
      proof (cases "isLowSurrogate d")
        case True
        have "0 \<notin> set (utf8_encode ds)"
          using "2.IH"(1) [OF hi Cons True] cs Cons by simp
        moreover have "0 \<notin> set (encode_code_point (code_point c d))"
          using code_point_range [OF hi True]
          by (intro encode_code_point_nonzero) (simp_all add: code_point_def)
        ultimately show ?thesis
          using hi Cons True by simp
      next
        case False
        have "0 \<notin> set (utf8_encode cs)"
          using "2.IH"(2) [OF hi Cons False] cs by simp
        then show ?thesis
          using hi Cons False rep by simp
      qed
    qed
  next
    case nhi: False
    show ?thesis
    proof (cases "isLowSurrogate c")
      case True
      have "0 \<notin> set (utf8_encode cs)"
        using "2.IH"(3) [OF nhi True] cs by simp
      then show ?thesis
        using nhi True rep by simp
    next
      case False
      have "0 \<notin> set (utf8_encode cs)"
        using "2.IH"(4) [OF nhi False] cs by simp
      moreover have "0 < unat c"
        using c by (simp add: unat_gt_0)
      then have "0 \<notin> set (encode_code_point (unat c))"
        using unat_unit16_bound [of c] by (intro encode_code_point_nonzero) simp_all
      ultimately show ?thesis
        using nhi False by simp
    qed
  qed
qed

lemma env_value_exact:
  assumes "well_formed s" "0 \<notin> set s"
  shows "env_value s = s"
proof -
  have "\<forall>b \<in> set (utf8_encode s). b \<noteq> 0"
    using utf8_encode_nonzero [OF assms(2)] by metis
  then have tw: "takeWhile (\<lambda>b. b \<noteq> 0) (utf8_encode s) = utf8_encode s"
    by (simp add: takeWhile_eq_all_conv)
  show ?thesis
    unfolding env_value_def tw by (rule utf8_round_trip [OF assms(1)])
qed

section \<open>Trimming and the message of the missing token\<close>

lemma dropWhile_fixed: "xs = [] \<or> \<not> P (hd xs) \<Longrightarrow> dropWhile P xs = xs"
  by (cases xs) auto

lemma hd_rev_dropWhile_rev:
  assumes "rev (dropWhile P (rev xs)) \<noteq> []"
  shows "hd (rev (dropWhile P (rev xs))) = hd xs"
proof -
  have "rev xs = takeWhile P (rev xs) @ dropWhile P (rev xs)"
    by simp
  then have "xs = rev (dropWhile P (rev xs)) @ rev (takeWhile P (rev xs))"
    by (metis rev_append rev_rev_ident)
  with assms show ?thesis
    by (metis hd_append2)
qed

lemma trim_idem: "trim (trim s) = trim s"
proof -
  define a where "a = dropWhile isWhiteSpace s"
  define b where "b = dropWhile isWhiteSpace (rev a)"
  have t: "trim s = rev b"
    by (simp add: trim_def a_def b_def)
  have a: "a = [] \<or> \<not> isWhiteSpace (hd a)"
    unfolding a_def by (metis hd_dropWhile)
  have "rev b = [] \<or> \<not> isWhiteSpace (hd (rev b))"
  proof (cases "rev b = []")
    case True
    then show ?thesis by simp
  next
    case False
    then have "hd (rev b) = hd a" "a \<noteq> []"
      unfolding b_def using hd_rev_dropWhile_rev [of isWhiteSpace a] by auto
    with a show ?thesis by simp
  qed
  then have "dropWhile isWhiteSpace (rev b) = rev b"
    by (rule dropWhile_fixed)
  moreover have "dropWhile isWhiteSpace b = b"
    unfolding b_def by simp
  ultimately show ?thesis
    unfolding t by (simp add: trim_def)
qed

lemma trim_Nil: "trim [] = []"
  by (simp add: trim_def)

lemma not_configured_message_lines:
  "not_configured_message =
     lit ''Dropbox refresh token is not configured.'' @ [0x0A]
     @ lit ''Set DROPBOX_REFRESH_TOKEN (recommended) or create a token file.'' @ [0x0A]
     @ lit ''You can also use MCP tools:'' @ [0x0A]
     @ lit ''- dropbox_auth_get_url (open the URL, authorize, copy the code)'' @ [0x0A]
     @ lit ''- dropbox_auth_exchange_code (exchange code -> refresh token; optionally save)''"
  by (simp add: not_configured_message_def)

section \<open>The JSON texts and the handlers\<close>

lemma quote_ascii_keys:
  "quoteJSONString (lit ''configured'') = [dquote] @ lit ''configured'' @ [dquote]"
  "quoteJSONString (lit ''source'') = [dquote] @ lit ''source'' @ [dquote]"
  "quoteJSONString (lit ''refresh_token'') = [dquote] @ lit ''refresh_token'' @ [dquote]"
  "quoteJSONString (lit ''saved'') = [dquote] @ lit ''saved'' @ [dquote]"
  "quoteJSONString (lit ''tokenFile'') = [dquote] @ lit ''tokenFile'' @ [dquote]"
  "quoteJSONString (lit ''path'') = [dquote] @ lit ''path'' @ [dquote]"
  "quoteJSONString (lit ''recursive'') = [dquote] @ lit ''recursive'' @ [dquote]"
  "quoteJSONString (lit ''include_media_info'') = [dquote] @ lit ''include_media_info'' @ [dquote]"
  "quoteJSONString (lit ''include_deleted'') = [dquote] @ lit ''include_deleted'' @ [dquote]"
  "quoteJSONString (lit ''include_has_explicit_shared_members'')
     = [dquote] @ lit ''include_has_explicit_shared_members'' @ [dquote]"
  by (simp_all add: quoteJSONString_def lit_def isHighSurrogate_def isLowSurrogate_def
      quoteCodeUnit_def)

lemma lit_colon_space: "lit '':'' @ lit '' '' @ s = lit '': '' @ s"
  by (simp add: lit_def)

lemma file_token_load: "trim (or_empty (loadRefreshToken cfg st)) = file_token cfg st"
  by (simp add: loadRefreshToken_def file_token_def or_empty_def trim_idem trim_Nil
      split: option.splits)

lemma stringify_status:
  "JSON_stringify_object (lit ''  '') [(lit ''configured'', JBoolean b), (lit ''source'', JString s)]
     = status_text b s"
proof -
  have gap: "lit ''  '' \<noteq> []"
    by (simp add: lit_def)
  show ?thesis
    unfolding JSON_stringify_object_def Let_def List.map_filter_simps serialize_property_def
      serialize_value_def
    using gap by (simp add: quote_ascii_keys status_text_def lit_colon_space)
qed

lemma lit_two_spaces: "lit ''  '' \<noteq> []"
  by (simp add: lit_def)

lemma stringify_list_folder:
  "JSON_stringify_object [] (listFolder_body folderPath)
     = list_folder_text (if folderPath = lit ''/'' then [] else folderPath)"
  unfolding JSON_stringify_object_def Let_def listFolder_body_def List.map_filter_simps
    serialize_property_def serialize_value_def
  by (simp add: quote_ascii_keys list_folder_text_def) (simp add: lit_def)

lemma stringify_exchange_saved:
  "JSON_stringify_object (lit ''  '') (exchange_result_object cfg token True)
     = exchange_text_saved cfg token"
  unfolding JSON_stringify_object_def Let_def exchange_result_object_def List.map_filter_simps
    serialize_property_def serialize_value_def
  using lit_two_spaces
  by (simp add: quote_ascii_keys exchange_text_saved_def lit_colon_space) (simp add: lit_def)

lemma stringify_exchange_unsaved:
  "JSON_stringify_object (lit ''  '') (exchange_result_object cfg token False)
     = exchange_text_unsaved token"
  unfolding JSON_stringify_object_def Let_def exchange_result_object_def List.map_filter_simps
    serialize_property_def serialize_value_def
  using lit_two_spaces
  by (simp add: quote_ascii_keys exchange_text_unsaved_def lit_colon_space) (simp add: lit_def)

lemma load_after_save:
  "loadRefreshToken cfg (saveRefreshToken cfg t st) = Some (trim (utf8_decode (utf8_encode t)))"
  by (simp add: loadRefreshToken_def saveRefreshToken_def)

lemma load_ignores_env:
  "loadRefreshToken cfg (st\<lparr>DROPBOX_REFRESH_TOKEN := v\<rparr>) = loadRefreshToken cfg st"
  by (simp add: loadRefreshToken_def)

lemma exchange_code_success:
  assumes "exchangeCodeForToken cfg parse net authCode = Inr tokens"
    and "tokens_refresh_token tokens = Some token" and "token \<noteq> []"
  shows "dropbox_auth_exchange_code cfg parse net authCode save st =
    (\<lparr> content_text =
         (if save \<noteq> Some False then exchange_text_saved cfg token
          else exchange_text_unsaved token),
       isError = False \<rparr>,
     (if save \<noteq> Some False then saveRefreshToken cfg token st else st)
       \<lparr>DROPBOX_REFRESH_TOKEN := Some (env_value token)\<rparr>)"
  using assms
  by (simp add: dropbox_auth_exchange_code_def Let_def stringify_exchange_saved
      stringify_exchange_unsaved)

lemma exchange_code_failure:
  "exchangeCodeForToken cfg parse net authCode = Inl e \<Longrightarrow>
     dropbox_auth_exchange_code cfg parse net authCode save st = (error_result e, st)"
  "exchangeCodeForToken cfg parse net authCode = Inr tokens \<Longrightarrow>
   \<not> truthy (tokens_refresh_token tokens) \<Longrightarrow>
     dropbox_auth_exchange_code cfg parse net authCode save st =
       (\<lparr> content_text = lit ''Error: '' @ no_refresh_token_message, isError = True \<rparr>, st)"
  by (auto simp: dropbox_auth_exchange_code_def truthy_def error_result_def split: option.splits)

lemma example_body_well_formed:
  "well_formed (example_body None)"
  "well_formed (example_body (Some (lit ''y'')))"
  "well_formed (example_body (Some (lit '' y'')))"
  by (simp_all add: example_body_def JSON_stringify_object_def List.map_filter_simps
      serialize_property_def serialize_value_def quoteJSONString_def quoteCodeUnit_def lit_def
      dquote_def isHighSurrogate_def isLowSurrogate_def)

lemma example_exchange:
  assumes "well_formed (example_body token)"
  shows "exchangeCodeForToken example_config (example_parse token) (example_net token) authCode =
     Inr (Parsed \<lparr> pair_access_token = lit ''x'', pair_refresh_token = token \<rparr>)"
  using assms
  by (simp add: exchangeCodeForToken_def makeRequest_def Let_def example_net_def
      example_parse_def success_status_def body_text_def utf8_round_trip)

lemma example_body_nul_well_formed: "well_formed (example_body (Some [0x00, 0x79]))"
  by (simp add: example_body_def JSON_stringify_object_def List.map_filter_simps
      serialize_property_def serialize_value_def quoteJSONString_def quoteCodeUnit_def lit_def
      dquote_def backslash_def isHighSurrogate_def isLowSurrogate_def unicodeEscape_hex4
      hex4_def hexDigit_def)

lemma env_value_nul: "env_value [0x00, 0x79] = []"
  by (simp add: env_value_def isHighSurrogate_def isLowSurrogate_def encode_code_point_def)

section \<open>The claims\<close>

text \<open>
  C1, as the code has it. For every \<open>filePath\<close> the \<open>Dropbox-API-Arg\<close> header of
  the download request is \<open>{"path":"..."}\<close> where each code unit of \<open>filePath\<close> is
  rendered by \<open>header_unit\<close>: every code unit from 0x7f up becomes \<open>\uXXXX\<close> with four
  lowercase hexadecimal digits; a control character below 0x20 is escaped by
  \<open>JSON.stringify\<close> (the short escapes for 0x08, 0x09, 0x0a, 0x0c and 0x0d, \<open>\u00XX\<close>
  for the others); the double quote and the backslash get a backslash before them; every
  other character of 0x20..0x7e is unchanged. The whole header value consists of
  characters of 0x20..0x7e only.
\<close>

theorem download_header_escaped:
  "map_of (headers (downloadFile_request accessToken filePath)) (lit ''Dropbox-API-Arg'')
     = Some (lit ''{'' @ [dquote] @ lit ''path'' @ [dquote] @ lit '':'' @ [dquote]
         @ concat (map header_unit filePath) @ [dquote] @ lit ''}'')
   \<and> list_all printable
       (lit ''{'' @ [dquote] @ lit ''path'' @ [dquote] @ lit '':'' @ [dquote]
         @ concat (map header_unit filePath) @ [dquote] @ lit ''}'')"
proof -
  define pre where "pre = lit ''{'' @ [dquote] @ lit ''path'' @ [dquote] @ lit '':'' @ [dquote]"
  define post where "post = [dquote] @ lit ''}''"
  have fixed: "list_all printable pre" "list_all printable post"
    by (simp_all add: pre_def post_def lit_def dquote_def printable_def)
  have quoted: "quoteJSONChars (lit ''path'') = lit ''path''"
    by (simp add: lit_def isHighSurrogate_def isLowSurrogate_def quoteCodeUnit_def)
  have shape: "JSON_stringify_object [] [(lit ''path'', JString filePath)]
      = pre @ quoteJSONChars filePath @ post"
    by (simp add: JSON_stringify_object_def List.map_filter_simps serialize_property_def
        serialize_value_def quoted quoteJSONString_def pre_def post_def)
  have escaped: "escapeNonAscii (JSON_stringify_object [] [(lit ''path'', JString filePath)])
      = pre @ concat (map header_unit filePath) @ post"
    unfolding shape escapeNonAscii_append escape_quoteJSONChars
      escapeNonAscii_printable [OF fixed(1)] escapeNonAscii_printable [OF fixed(2)] ..
  have keys: "lit ''Authorization'' \<noteq> lit ''Dropbox-API-Arg''"
    by (simp add: lit_def)
  have "map_of (headers (downloadFile_request accessToken filePath)) (lit ''Dropbox-API-Arg'')
      = Some (pre @ concat (map header_unit filePath) @ post)"
    using keys by (simp add: downloadFile_request_def escaped)
  moreover have "list_all printable (pre @ concat (map header_unit filePath) @ post)"
    using fixed by (simp add: printable_concat_header_unit)
  ultimately show ?thesis
    by (simp add: pre_def post_def)
qed

text \<open>
  C1 as the specification states it fails at the path that is one line feed: the header
  holds the two characters \<open>\n\<close> of JSON there, not \<open>\u000a\<close>.
\<close>

theorem download_header_linefeed_not_numeric:
  "map_of (headers (downloadFile_request None [0x0A])) (lit ''Dropbox-API-Arg'')
     \<noteq> Some (spec_api_arg [0x0A])"
  by (simp add: downloadFile_request_def lit_def spec_api_arg_def spec_header_unit_def
      printable_def escapeNonAscii_def JSON_stringify_object_def List.map_filter_simps
      serialize_property_def serialize_value_def quoteJSONString_def
      isHighSurrogate_def isLowSurrogate_def quoteCodeUnit_def escapeUnit_def dquote_def
      backslash_def)

text \<open>
  C2, as the code has it. At a local time \<open>now\<close> whose fields lie in the ranges of a
  \<open>Date\<close>, \<open>generateFileName\<close> returns the year in decimal as \<open>String\<close> prints it,
  then month (from 1), day, hour and minute with two digits each, a hyphen, the title
  with each of the characters \<open>/ \ ? % * : | " < >\<close> replaced by a hyphen and no other
  character changed, and \<open>.md\<close>. When the year is between 1000 and 9999 the year has
  four digits and the name is \<open>YYYYMMDDHHmm-S.md\<close>.
\<close>

theorem generateFileName_format:
  assumes "clock_time now"
  shows "generateFileName now title =
      number_toString (fullYear now) @ digits2 (month now + 1) @ digits2 (date now)
        @ digits2 (hours now) @ digits2 (minutes now) @ lit ''-'' @ map sanitize title @ lit ''.md''
    \<and> (1000 \<le> fullYear now \<and> fullYear now \<le> 9999 \<longrightarrow>
         generateFileName now title = spec_fileName now title)"
proof -
  from assms have "month now + 1 < 100" "date now < 100" "hours now < 100" "minutes now < 100"
    by (simp_all add: clock_time_def)
  then have *: "generateFileName now title =
      number_toString (fullYear now) @ digits2 (month now + 1) @ digits2 (date now)
        @ digits2 (hours now) @ digits2 (minutes now) @ lit ''-'' @ map sanitize title @ lit ''.md''"
    unfolding generateFileName_def Let_def replace_forbidden
    by (simp only: padStart_2 append_assoc)
  show ?thesis
    unfolding * by (simp add: spec_fileName_def year_four_digits)
qed

theorem generateFileName_format_witness:
  "clock_time \<lparr>fullYear = 2024, month = 11, date = 5, hours = 14, minutes = 45\<rparr>
   \<and> generateFileName \<lparr>fullYear = 2024, month = 11, date = 5, hours = 14, minutes = 45\<rparr>
       (lit ''My: Note'') = lit ''202412051445-My- Note.md''"
proof -
  have c: "clock_time \<lparr>fullYear = 2024, month = 11, date = 5, hours = 14, minutes = 45\<rparr>"
    by (simp add: clock_time_def)
  show ?thesis
    using c generateFileName_format [OF c, of "lit ''My: Note''", THEN conjunct2]
    by (simp add: spec_fileName_def digits4_def digits2_def decDigit_def lit_def sanitize_def)
qed

text \<open>
  C2 as the specification states it fails at a local time in the year 12345: the year is
  not padded or cut, so the name starts with five digits of year.
\<close>

theorem generateFileName_year_12345:
  "generateFileName \<lparr>fullYear = 12345, month = 0, date = 1, hours = 0, minutes = 0\<rparr> (lit ''a'')
     \<noteq> spec_fileName \<lparr>fullYear = 12345, month = 0, date = 1, hours = 0, minutes = 0\<rparr> (lit ''a'')"
  by (simp add: generateFileName_def spec_fileName_def number_toString_def toString10.simps
      padStart_def digits4_def digits2_def decDigit_def lit_def replace_class_def forbidden_def
      sanitize_def)

text \<open>
  C3. For every complete response that the HTTP client receives: with a status code in
  [200,300) and a body that \<open>JSON.parse\<close> accepts, the call resolves with the parsed
  value; with a status code in [200,300) and a body that \<open>JSON.parse\<close> rejects, it
  resolves with the text of the body; with a status code outside [200,300) it fails
  with an error whose message carries the status code and the text of the body.
\<close>

theorem makeRequest_complete_response:
  assumes "net req = Response (Some sc) chunks"
  shows "(200 \<le> sc \<and> sc < 300 \<and> parse (body_text chunks) = Some v \<longrightarrow>
            makeRequest parse net req = Inr (Parsed v))
       \<and> (200 \<le> sc \<and> sc < 300 \<and> parse (body_text chunks) = None \<longrightarrow>
            makeRequest parse net req = Inr (Raw (body_text chunks)))
       \<and> (\<not> (200 \<le> sc \<and> sc < 300) \<longrightarrow>
            makeRequest parse net req =
              Inl (Error (lit ''Request failed: '' @ toString10 sc @ lit '' - '' @ body_text chunks)))"
  using assms
  by (auto simp: makeRequest_def Let_def success_status_def template_number_def)

theorem makeRequest_complete_response_witness:
  "makeRequest (\<lambda>s. if s = lit ''true'' then Some True else None)
      (\<lambda>r. Response (Some 200) [[0x74, 0x72], [0x75, 0x65]]) (downloadFile_request None []) = Inr (Parsed True)
   \<and> makeRequest (\<lambda>s. if s = lit ''true'' then Some True else None)
      (\<lambda>r. Response (Some 200) [[0x68, 0x69]]) (downloadFile_request None []) = Inr (Raw (lit ''hi''))
   \<and> makeRequest (\<lambda>s. if s = lit ''true'' then Some True else None)
      (\<lambda>r. Response (Some 404) [[0x6E, 0x6F]]) (downloadFile_request None [])
        = Inl (Error (lit ''Request failed: 404 - no''))"
proof -
  let ?parse = "\<lambda>s. if s = lit ''true'' then Some True else None"
  have b1: "body_text [[0x74, 0x72], [0x75, 0x65]] = lit ''true''"
    and b2: "body_text [[0x68, 0x69]] = lit ''hi''"
    and b3: "body_text [[0x6E, 0x6F]] = lit ''no''"
    by (simp_all add: body_text_def utf8_sequence_def utf16_units_def lit_def)
  have n: "toString10 404 = lit ''404''"
    by (simp add: toString10.simps decDigit_def lit_def)
  have "makeRequest ?parse (\<lambda>r. Response (Some 200) [[0x74, 0x72], [0x75, 0x65]])
        (downloadFile_request None []) = Inr (Parsed True)"
    using makeRequest_complete_response
      [where net = "\<lambda>r. Response (Some 200) [[0x74, 0x72], [0x75, 0x65]]" and req = "downloadFile_request None []"
        and sc = 200 and chunks = "[[0x74, 0x72], [0x75, 0x65]]" and parse = ?parse and v = True]
    by (simp add: b1)
  moreover have "makeRequest ?parse (\<lambda>r. Response (Some 200) [[0x68, 0x69]])
        (downloadFile_request None []) = Inr (Raw (lit ''hi''))"
    using makeRequest_complete_response
      [where net = "\<lambda>r. Response (Some 200) [[0x68, 0x69]]" and req = "downloadFile_request None []"
        and sc = 200 and chunks = "[[0x68, 0x69]]" and parse = ?parse]
    by (simp add: b2) (simp add: lit_def)
  moreover have "makeRequest ?parse (\<lambda>r. Response (Some 404) [[0x6E, 0x6F]])
        (downloadFile_request None []) = Inl (Error (lit ''Request failed: 404 - no''))"
    using makeRequest_complete_response
      [where net = "\<lambda>r. Response (Some 404) [[0x6E, 0x6F]]" and req = "downloadFile_request None []"
        and sc = 404 and chunks = "[[0x6E, 0x6F]]" and parse = ?parse]
    by (simp add: b3 n) (simp add: lit_def)
  ultimately show ?thesis by simp
qed

text \<open>
  C4. When the variable of the environment and the token file both hold a non-empty
  token, \<open>getRefreshToken\<close> returns the one of the environment. When neither source
  gives a non-empty value it fails with the error whose message tells to set
  \<open>DROPBOX_REFRESH_TOKEN\<close> or a token file, or to use the tools
  \<open>dropbox_auth_get_url\<close> and \<open>dropbox_auth_exchange_code\<close>. It reads nothing but the
  environment and the file, and in every state it returns a token or fails with that
  error: it never waits for input.
\<close>

theorem getRefreshToken_sources:
  "(DROPBOX_REFRESH_TOKEN st = Some e \<and> e \<noteq> [] \<and> loadRefreshToken cfg st = Some f \<and> f \<noteq> [] \<longrightarrow>
      getRefreshToken cfg st = Inr e)
   \<and> (\<not> truthy (DROPBOX_REFRESH_TOKEN st) \<and> \<not> truthy (loadRefreshToken cfg st) \<longrightarrow>
      getRefreshToken cfg st =
        Inl (Error
          (lit ''Dropbox refresh token is not configured.'' @ [0x0A]
           @ lit ''Set DROPBOX_REFRESH_TOKEN (recommended) or create a token file.'' @ [0x0A]
           @ lit ''You can also use MCP tools:'' @ [0x0A]
           @ lit ''- dropbox_auth_get_url (open the URL, authorize, copy the code)'' @ [0x0A]
           @ lit ''- dropbox_auth_exchange_code (exchange code -> refresh token; optionally save)'')))
   \<and> ((\<exists>token. token \<noteq> [] \<and> getRefreshToken cfg st = Inr token)
        \<or> getRefreshToken cfg st = Inl (Error not_configured_message))"
  unfolding not_configured_message_lines [symmetric]
  by (auto simp: getRefreshToken_def Let_def truthy_def split: option.splits)

theorem getRefreshToken_sources_witness:
  "getRefreshToken example_config
      \<lparr> DROPBOX_REFRESH_TOKEN = Some (lit ''e''),
        files = [TOKEN_FILE_PATH example_config \<mapsto> [0x66]] \<rparr> = Inr (lit ''e'')
   \<and> getRefreshToken example_config \<lparr> DROPBOX_REFRESH_TOKEN = None, files = Map.empty \<rparr>
        = Inl (Error not_configured_message)"
proof -
  have l: "loadRefreshToken example_config
      \<lparr> DROPBOX_REFRESH_TOKEN = Some (lit ''e''),
        files = [TOKEN_FILE_PATH example_config \<mapsto> [0x66]] \<rparr> = Some (lit ''f'')"
    by (simp add: loadRefreshToken_def utf8_sequence_def utf16_units_def trim_def
        isWhiteSpace_def lit_def)
  have "getRefreshToken example_config
      \<lparr> DROPBOX_REFRESH_TOKEN = Some (lit ''e''),
        files = [TOKEN_FILE_PATH example_config \<mapsto> [0x66]] \<rparr> = Inr (lit ''e'')"
    using getRefreshToken_sources
      [where st = "\<lparr> DROPBOX_REFRESH_TOKEN = Some (lit ''e''),
          files = [TOKEN_FILE_PATH example_config \<mapsto> [0x66]] \<rparr>"
        and cfg = example_config and e = "lit ''e''" and f = "lit ''f''", THEN conjunct1]
    by (simp add: l) (simp add: lit_def)
  moreover have "getRefreshToken example_config
      \<lparr> DROPBOX_REFRESH_TOKEN = None, files = Map.empty \<rparr> = Inl (Error not_configured_message)"
    using getRefreshToken_sources
      [where st = "\<lparr> DROPBOX_REFRESH_TOKEN = None, files = Map.empty \<rparr>"
        and cfg = example_config, THEN conjunct2, THEN conjunct1]
    by (simp add: truthy_def loadRefreshToken_def not_configured_message_lines)
  ultimately show ?thesis by simp
qed

text \<open>
  C5, as the code has it. \<open>dropbox_auth_status\<close> returns the JSON text of
  \<open>{configured, source}\<close>: \<open>configured\<close> is true exactly when the token of the
  environment or the text of the token file is non-empty after trimming; \<open>source\<close> is
  \<open>env:DROPBOX_REFRESH_TOKEN\<close> when the trimmed token of the environment is non-empty,
  \<open>file:\<close> and the path of the token file when only the file holds a token, and
  \<open>none\<close> otherwise. With no variable and no token file the result is
  \<open>{configured: false, source: "none"}\<close>.
\<close>

theorem auth_status_reports:
  "auth_status_object cfg st =
     [(lit ''configured'', JBoolean (env_token st \<noteq> [] \<or> file_token cfg st \<noteq> [])),
      (lit ''source'',
         JString (if env_token st \<noteq> [] then lit ''env:DROPBOX_REFRESH_TOKEN''
                  else if file_token cfg st \<noteq> [] then lit ''file:'' @ TOKEN_FILE_PATH cfg
                  else lit ''none''))]
   \<and> dropbox_auth_status cfg st =
       \<lparr> content_text =
           status_text (env_token st \<noteq> [] \<or> file_token cfg st \<noteq> [])
             (if env_token st \<noteq> [] then lit ''env:DROPBOX_REFRESH_TOKEN''
              else if file_token cfg st \<noteq> [] then lit ''file:'' @ TOKEN_FILE_PATH cfg
              else lit ''none''),
         isError = False \<rparr>
   \<and> (DROPBOX_REFRESH_TOKEN st = None \<and> files st (TOKEN_FILE_PATH cfg) = None \<longrightarrow>
        dropbox_auth_status cfg st =
          \<lparr> content_text = status_text False (lit ''none''), isError = False \<rparr>)"
proof -
  have obj: "auth_status_object cfg st =
     [(lit ''configured'', JBoolean (env_token st \<noteq> [] \<or> file_token cfg st \<noteq> [])),
      (lit ''source'',
         JString (if env_token st \<noteq> [] then lit ''env:DROPBOX_REFRESH_TOKEN''
                  else if file_token cfg st \<noteq> [] then lit ''file:'' @ TOKEN_FILE_PATH cfg
                  else lit ''none''))]"
    unfolding auth_status_object_def Let_def file_token_load env_token_def [symmetric] ..
  have call: "dropbox_auth_status cfg st =
       \<lparr> content_text =
           status_text (env_token st \<noteq> [] \<or> file_token cfg st \<noteq> [])
             (if env_token st \<noteq> [] then lit ''env:DROPBOX_REFRESH_TOKEN''
              else if file_token cfg st \<noteq> [] then lit ''file:'' @ TOKEN_FILE_PATH cfg
              else lit ''none''),
         isError = False \<rparr>"
    unfolding dropbox_auth_status_def obj stringify_status ..
  have none: "env_token st = []" "file_token cfg st = []"
    if "DROPBOX_REFRESH_TOKEN st = None" "files st (TOKEN_FILE_PATH cfg) = None"
    using that by (simp_all add: env_token_def file_token_def or_empty_def trim_Nil)
  show ?thesis
    using obj call none by simp
qed

theorem auth_status_reports_witness:
  "dropbox_auth_status example_config \<lparr> DROPBOX_REFRESH_TOKEN = None, files = Map.empty \<rparr> =
     \<lparr> content_text = status_text False (lit ''none''), isError = False \<rparr>"
  using auth_status_reports
    [where cfg = example_config
      and st = "\<lparr> DROPBOX_REFRESH_TOKEN = None, files = Map.empty \<rparr>",
      THEN conjunct2, THEN conjunct2]
  by simp

text \<open>
  C5 as the specification states it fails when the environment holds a token: the
  source is \<open>env:DROPBOX_REFRESH_TOKEN\<close>, not \<open>env\<close>.
\<close>

theorem auth_status_env_source_name:
  "map_of (auth_status_object example_config
       \<lparr> DROPBOX_REFRESH_TOKEN = Some (lit ''tok''), files = Map.empty \<rparr>) (lit ''source'')
     \<noteq> Some (JString (lit ''env''))"
  by (simp add: auth_status_object_def Let_def or_empty_def trim_def isWhiteSpace_def
      loadRefreshToken_def lit_def)

text \<open>
  C6 fails on the code. With the variable of the environment set to one space and no
  token file, \<open>getRefreshToken\<close> returns the space, so the token request is made with
  a whitespace-only refresh token, while \<open>dropbox_auth_status\<close>, which trims the
  variable, reports the same state as not configured.
\<close>

theorem whitespace_env_token_is_used:
  "getRefreshToken example_config
      \<lparr> DROPBOX_REFRESH_TOKEN = Some (lit '' ''), files = Map.empty \<rparr> = Inr (lit '' '')
   \<and> trim (lit '' '') = []
   \<and> dropbox_auth_status example_config
        \<lparr> DROPBOX_REFRESH_TOKEN = Some (lit '' ''), files = Map.empty \<rparr>
     = \<lparr> content_text = status_text False (lit ''none''), isError = False \<rparr>"
proof -
  have "getRefreshToken example_config
      \<lparr> DROPBOX_REFRESH_TOKEN = Some (lit '' ''), files = Map.empty \<rparr> = Inr (lit '' '')"
    by (simp add: getRefreshToken_def truthy_def lit_def)
  moreover have t: "trim (lit '' '') = []"
    by (simp add: trim_def isWhiteSpace_def lit_def)
  moreover have "auth_status_object example_config
      \<lparr> DROPBOX_REFRESH_TOKEN = Some (lit '' ''), files = Map.empty \<rparr>
      = [(lit ''configured'', JBoolean False), (lit ''source'', JString (lit ''none''))]"
    by (simp add: auth_status_object_def Let_def or_empty_def t loadRefreshToken_def trim_Nil)
  ultimately show ?thesis
    by (simp add: dropbox_auth_status_def stringify_status)
qed

text \<open>
  C7, as the code has it. For every token \<open>t\<close> without a lone surrogate, \<open>load\<close>
  after \<open>save(t)\<close> returns \<open>t\<close> trimmed; and \<open>load\<close> returns the absent value when
  there is no token file.
\<close>

theorem save_load_round_trip:
  "(well_formed t \<longrightarrow> loadRefreshToken cfg (saveRefreshToken cfg t st) = Some (trim t))
   \<and> (files st (TOKEN_FILE_PATH cfg) = None \<longrightarrow> loadRefreshToken cfg st = None)"
  by (simp add: load_after_save utf8_round_trip) (simp add: loadRefreshToken_def)

theorem save_load_round_trip_witness:
  "well_formed (lit '' ab '')
   \<and> loadRefreshToken example_config
        (saveRefreshToken example_config (lit '' ab '')
           \<lparr> DROPBOX_REFRESH_TOKEN = None, files = Map.empty \<rparr>) = Some (lit ''ab'')
   \<and> loadRefreshToken example_config \<lparr> DROPBOX_REFRESH_TOKEN = None, files = Map.empty \<rparr> = None"
proof -
  have wf: "well_formed (lit '' ab '')"
    by (simp add: lit_def isHighSurrogate_def isLowSurrogate_def)
  have tr: "trim (lit '' ab '') = lit ''ab''"
    by (simp add: trim_def isWhiteSpace_def lit_def)
  have "loadRefreshToken example_config
        (saveRefreshToken example_config (lit '' ab '')
           \<lparr> DROPBOX_REFRESH_TOKEN = None, files = Map.empty \<rparr>) = Some (lit ''ab'')"
    using wf save_load_round_trip [of "lit '' ab ''" example_config, THEN conjunct1]
    by (simp add: tr)
  moreover have "loadRefreshToken example_config
      \<lparr> DROPBOX_REFRESH_TOKEN = None, files = Map.empty \<rparr> = None"
    using save_load_round_trip
      [where cfg = example_config
        and st = "\<lparr> DROPBOX_REFRESH_TOKEN = None, files = Map.empty \<rparr>", THEN conjunct2]
    by simp
  ultimately show ?thesis
    using wf by simp
qed

text \<open>
  C7 as the specification states it fails at the token that is one lone surrogate:
  the file holds the bytes of U+FFFD, and \<open>load\<close> returns U+FFFD.
\<close>

theorem save_load_lone_surrogate:
  "loadRefreshToken example_config
     (saveRefreshToken example_config [0xD800]
        \<lparr> DROPBOX_REFRESH_TOKEN = None, files = Map.empty \<rparr>) \<noteq> Some (trim [0xD800])"
  by (simp add: load_after_save isHighSurrogate_def replacement_bytes_def utf8_sequence_def
      utf16_units_def continuation_1 continuation_2 trim_def isWhiteSpace_def)

text \<open>
  C8. The body of the list request has the path field empty when \<open>folderPath\<close> is
  exactly \<open>/\<close> and \<open>folderPath\<close> itself for every other input, and the fields
  \<open>recursive\<close>, \<open>include_media_info\<close>, \<open>include_deleted\<close> and
  \<open>include_has_explicit_shared_members\<close> all false.
\<close>

theorem listFolder_body_path:
  "(folderPath = lit ''/'' \<longrightarrow>
      body (listFolder_request accessToken folderPath) = Some (list_folder_text []))
   \<and> (folderPath \<noteq> lit ''/'' \<longrightarrow>
      body (listFolder_request accessToken folderPath) = Some (list_folder_text folderPath))
   \<and> map_of (listFolder_body folderPath) (lit ''path'')
       = Some (JString (if folderPath = lit ''/'' then [] else folderPath))
   \<and> map_of (listFolder_body folderPath) (lit ''recursive'') = Some (JBoolean False)
   \<and> map_of (listFolder_body folderPath) (lit ''include_media_info'') = Some (JBoolean False)
   \<and> map_of (listFolder_body folderPath) (lit ''include_deleted'') = Some (JBoolean False)
   \<and> map_of (listFolder_body folderPath) (lit ''include_has_explicit_shared_members'')
       = Some (JBoolean False)"
proof -
  have "folderPath = lit ''/'' \<longrightarrow>
      body (listFolder_request accessToken folderPath) = Some (list_folder_text [])"
    by (simp add: listFolder_request_def stringify_list_folder)
  moreover have "folderPath \<noteq> lit ''/'' \<longrightarrow>
      body (listFolder_request accessToken folderPath) = Some (list_folder_text folderPath)"
    by (simp add: listFolder_request_def stringify_list_folder)
  moreover have "map_of (listFolder_body folderPath) (lit ''path'')
       = Some (JString (if folderPath = lit ''/'' then [] else folderPath))"
    by (simp add: listFolder_body_def)
  moreover have "map_of (listFolder_body folderPath) (lit ''recursive'') = Some (JBoolean False)"
    "map_of (listFolder_body folderPath) (lit ''include_media_info'') = Some (JBoolean False)"
    "map_of (listFolder_body folderPath) (lit ''include_deleted'') = Some (JBoolean False)"
    "map_of (listFolder_body folderPath) (lit ''include_has_explicit_shared_members'')
       = Some (JBoolean False)"
    by (simp_all add: listFolder_body_def lit_def)
  ultimately show ?thesis by blast
qed

theorem listFolder_body_path_witness:
  "body (listFolder_request (Some (lit ''t'')) (lit ''/'')) = Some (list_folder_text [])
   \<and> body (listFolder_request (Some (lit ''t'')) (lit ''/a'')) = Some (list_folder_text (lit ''/a''))
   \<and> body (listFolder_request (Some (lit ''t'')) []) = Some (list_folder_text [])"
proof -
  have "body (listFolder_request (Some (lit ''t'')) (lit ''/'')) = Some (list_folder_text [])"
    using listFolder_body_path [of "lit ''/''" "Some (lit ''t'')", THEN conjunct1] by simp
  moreover have "body (listFolder_request (Some (lit ''t'')) (lit ''/a''))
      = Some (list_folder_text (lit ''/a''))"
    using listFolder_body_path [of "lit ''/a''" "Some (lit ''t'')", THEN conjunct2, THEN conjunct1]
    by (simp add: lit_def)
  moreover have "body (listFolder_request (Some (lit ''t'')) []) = Some (list_folder_text [])"
    using listFolder_body_path [of "[]" "Some (lit ''t'')", THEN conjunct2, THEN conjunct1]
    by (simp add: lit_def)
  ultimately show ?thesis by simp
qed

text \<open>
  C9, as the code has it. When the request to the token endpoint fails, or its response
  has no refresh token, \<open>dropbox_auth_exchange_code\<close> returns an error result and
  changes nothing. Otherwise, when \<open>save\<close> is left out or true, the token is written to
  the token file, the result is \<open>{refresh_token, saved: true, tokenFile}\<close>, and a
  following \<open>load\<close> returns the token trimmed, provided the token has no lone
  surrogate; when \<open>save\<close> is false the files are unchanged and the result is
  \<open>{refresh_token, saved: false}\<close> with no \<open>tokenFile\<close>.
\<close>

theorem exchange_code_results:
  "(exchangeCodeForToken cfg parse net authCode = Inl e \<longrightarrow>
      dropbox_auth_exchange_code cfg parse net authCode save st = (error_result e, st))
   \<and> (exchangeCodeForToken cfg parse net authCode = Inr tokens
        \<and> \<not> truthy (tokens_refresh_token tokens) \<longrightarrow>
      dropbox_auth_exchange_code cfg parse net authCode save st =
        (\<lparr> content_text = lit ''Error: '' @ no_refresh_token_message, isError = True \<rparr>, st))
   \<and> (exchangeCodeForToken cfg parse net authCode = Inr tokens
        \<and> tokens_refresh_token tokens = Some token \<and> token \<noteq> [] \<and> save \<noteq> Some False \<longrightarrow>
      fst (dropbox_auth_exchange_code cfg parse net authCode save st) =
        \<lparr> content_text = exchange_text_saved cfg token, isError = False \<rparr>
      \<and> files (snd (dropbox_auth_exchange_code cfg parse net authCode save st)) =
          (files st)(TOKEN_FILE_PATH cfg \<mapsto> utf8_encode token)
      \<and> (well_formed token \<longrightarrow>
           loadRefreshToken cfg (snd (dropbox_auth_exchange_code cfg parse net authCode save st))
             = Some (trim token)))
   \<and> (exchangeCodeForToken cfg parse net authCode = Inr tokens
        \<and> tokens_refresh_token tokens = Some token \<and> token \<noteq> [] \<and> save = Some False \<longrightarrow>
      fst (dropbox_auth_exchange_code cfg parse net authCode save st) =
        \<lparr> content_text = exchange_text_unsaved token, isError = False \<rparr>
      \<and> files (snd (dropbox_auth_exchange_code cfg parse net authCode save st)) = files st)"
proof (intro conjI impI)
  assume "exchangeCodeForToken cfg parse net authCode = Inl e"
  then show "dropbox_auth_exchange_code cfg parse net authCode save st = (error_result e, st)"
    by (rule exchange_code_failure(1))
next
  assume "exchangeCodeForToken cfg parse net authCode = Inr tokens
      \<and> \<not> truthy (tokens_refresh_token tokens)"
  then show "dropbox_auth_exchange_code cfg parse net authCode save st =
      (\<lparr> content_text = lit ''Error: '' @ no_refresh_token_message, isError = True \<rparr>, st)"
    by (simp add: exchange_code_failure(2))
next
  assume a: "exchangeCodeForToken cfg parse net authCode = Inr tokens
      \<and> tokens_refresh_token tokens = Some token \<and> token \<noteq> [] \<and> save \<noteq> Some False"
  then have call: "dropbox_auth_exchange_code cfg parse net authCode save st =
      (\<lparr> content_text = exchange_text_saved cfg token, isError = False \<rparr>,
       (saveRefreshToken cfg token st)\<lparr>DROPBOX_REFRESH_TOKEN := Some (env_value token)\<rparr>)"
    by (simp add: exchange_code_success)
  show "fst (dropbox_auth_exchange_code cfg parse net authCode save st) =
        \<lparr> content_text = exchange_text_saved cfg token, isError = False \<rparr>"
    by (simp add: call)
  show "files (snd (dropbox_auth_exchange_code cfg parse net authCode save st)) =
          (files st)(TOKEN_FILE_PATH cfg \<mapsto> utf8_encode token)"
    by (simp add: call saveRefreshToken_def)
  show "loadRefreshToken cfg (snd (dropbox_auth_exchange_code cfg parse net authCode save st))
        = Some (trim token)" if "well_formed token"
    using that by (simp add: call load_ignores_env load_after_save utf8_round_trip)
next
  assume a: "exchangeCodeForToken cfg parse net authCode = Inr tokens
      \<and> tokens_refresh_token tokens = Some token \<and> token \<noteq> [] \<and> save = Some False"
  then have call: "dropbox_auth_exchange_code cfg parse net authCode save st =
      (\<lparr> content_text = exchange_text_unsaved token, isError = False \<rparr>,
       st\<lparr>DROPBOX_REFRESH_TOKEN := Some (env_value token)\<rparr>)"
    by (simp add: exchange_code_success)
  show "fst (dropbox_auth_exchange_code cfg parse net authCode save st) =
        \<lparr> content_text = exchange_text_unsaved token, isError = False \<rparr>"
    by (simp add: call)
  show "files (snd (dropbox_auth_exchange_code cfg parse net authCode save st)) = files st"
    by (simp add: call)
qed

theorem exchange_code_results_witness:
  "fst (example_call (Some (lit ''y'')) (Some True) no_token_state)
     = \<lparr> content_text = exchange_text_saved example_config (lit ''y''), isError = False \<rparr>
   \<and> loadRefreshToken example_config
        (snd (example_call (Some (lit ''y'')) (Some True) no_token_state)) = Some (lit ''y'')
   \<and> fst (example_call (Some (lit ''y'')) (Some False) no_token_state)
     = \<lparr> content_text = exchange_text_unsaved (lit ''y''), isError = False \<rparr>
   \<and> files (snd (example_call (Some (lit ''y'')) (Some False) no_token_state)) = Map.empty
   \<and> example_call None None no_token_state
     = (\<lparr> content_text = lit ''Error: '' @ no_refresh_token_message, isError = True \<rparr>,
        no_token_state)"
proof -
  let ?y = "\<lparr> pair_access_token = lit ''x'', pair_refresh_token = Some (lit ''y'') \<rparr>"
  let ?n = "\<lparr> pair_access_token = lit ''x'', pair_refresh_token = None \<rparr>"
  have y: "lit ''y'' \<noteq> []" "well_formed (lit ''y'')" "trim (lit ''y'') = lit ''y''"
    by (simp_all add: lit_def isHighSurrogate_def isLowSurrogate_def trim_def isWhiteSpace_def)
  have saved:
    "fst (example_call (Some (lit ''y'')) (Some True) no_token_state)
       = \<lparr> content_text = exchange_text_saved example_config (lit ''y''), isError = False \<rparr>
     \<and> loadRefreshToken example_config
        (snd (example_call (Some (lit ''y'')) (Some True) no_token_state)) = Some (lit ''y'')"
    using exchange_code_results
      [where cfg = example_config and parse = "example_parse (Some (lit ''y''))"
        and net = "example_net (Some (lit ''y''))" and authCode = "lit ''abc''"
        and save = "Some True" and st = no_token_state and tokens = "Parsed ?y"
        and token = "lit ''y''",
        THEN conjunct2, THEN conjunct2, THEN conjunct1]
    by (simp add: example_exchange example_body_well_formed tokens_refresh_token_def y
        example_call_def)
  have unsaved:
    "fst (example_call (Some (lit ''y'')) (Some False) no_token_state)
       = \<lparr> content_text = exchange_text_unsaved (lit ''y''), isError = False \<rparr>
     \<and> files (snd (example_call (Some (lit ''y'')) (Some False) no_token_state)) = Map.empty"
    using exchange_code_results
      [where cfg = example_config and parse = "example_parse (Some (lit ''y''))"
        and net = "example_net (Some (lit ''y''))" and authCode = "lit ''abc''"
        and save = "Some False" and st = no_token_state and tokens = "Parsed ?y"
        and token = "lit ''y''",
        THEN conjunct2, THEN conjunct2, THEN conjunct2]
    by (simp add: example_exchange example_body_well_formed tokens_refresh_token_def y
        example_call_def) (simp add: no_token_state_def)
  have missing:
    "example_call None None no_token_state
       = (\<lparr> content_text = lit ''Error: '' @ no_refresh_token_message, isError = True \<rparr>,
          no_token_state)"
    using exchange_code_results
      [where cfg = example_config and parse = "example_parse None"
        and net = "example_net None" and authCode = "lit ''abc''" and save = None
        and st = no_token_state and tokens = "Parsed ?n",
        THEN conjunct2, THEN conjunct1]
    by (simp add: example_exchange example_body_well_formed tokens_refresh_token_def truthy_def
        example_call_def)
  from saved unsaved missing show ?thesis by simp
qed

text \<open>
  C9 as the specification states it fails for a refresh token with a space before it:
  the following \<open>load\<close> returns the token without the space.
\<close>

theorem exchange_code_padded_token:
  "loadRefreshToken example_config
     (snd (example_call (Some (lit '' y'')) (Some True) no_token_state)) \<noteq> Some (lit '' y'')"
proof -
  have "loadRefreshToken example_config
     (snd (example_call (Some (lit '' y'')) (Some True) no_token_state))
      = Some (trim (utf8_decode (utf8_encode (lit '' y''))))"
    by (simp add: example_call_def dropbox_auth_exchange_code_def example_exchange
        example_body_well_formed tokens_refresh_token_def Let_def load_ignores_env
        load_after_save)
      (simp add: lit_def)
  moreover have "trim (utf8_decode (utf8_encode (lit '' y''))) = lit ''y''"
    by (simp add: lit_def isHighSurrogate_def isLowSurrogate_def encode_code_point_def
        utf8_sequence_def utf16_units_def trim_def isWhiteSpace_def)
  ultimately show ?thesis
    by (simp add: lit_def)
qed

text \<open>
  C10, as the code has it. After every successful \<open>dropbox_auth_exchange_code\<close>,
  whatever \<open>save\<close> is, \<open>DROPBOX_REFRESH_TOKEN\<close> of the environment is the new refresh
  token as the environment stores it: cut before its first U+0000, with a lone surrogate
  replaced by U+FFFD. For a token with no U+0000 and no lone surrogate the variable is
  the token itself, and \<open>getRefreshToken\<close> returns it whatever the files hold.
\<close>

theorem exchange_code_overwrites_env:
  "exchangeCodeForToken cfg parse net authCode = Inr tokens
     \<and> tokens_refresh_token tokens = Some token \<and> token \<noteq> [] \<longrightarrow>
   DROPBOX_REFRESH_TOKEN (snd (dropbox_auth_exchange_code cfg parse net authCode save st))
     = Some (env_value token)
   \<and> (well_formed token \<and> 0 \<notin> set token \<longrightarrow>
        DROPBOX_REFRESH_TOKEN (snd (dropbox_auth_exchange_code cfg parse net authCode save st))
          = Some token
        \<and> (\<forall>fs. getRefreshToken cfg
               ((snd (dropbox_auth_exchange_code cfg parse net authCode save st))\<lparr>files := fs\<rparr>)
             = Inr token))"
proof (intro impI)
  assume a: "exchangeCodeForToken cfg parse net authCode = Inr tokens
     \<and> tokens_refresh_token tokens = Some token \<and> token \<noteq> []"
  then have env: "DROPBOX_REFRESH_TOKEN
      (snd (dropbox_auth_exchange_code cfg parse net authCode save st)) = Some (env_value token)"
    by (simp add: exchange_code_success)
  have "DROPBOX_REFRESH_TOKEN (snd (dropbox_auth_exchange_code cfg parse net authCode save st))
          = Some token
        \<and> (\<forall>fs. getRefreshToken cfg
               ((snd (dropbox_auth_exchange_code cfg parse net authCode save st))\<lparr>files := fs\<rparr>)
             = Inr token)"
    if "well_formed token \<and> 0 \<notin> set token"
    using that a env by (simp add: env_value_exact getRefreshToken_def truthy_def)
  with env show "DROPBOX_REFRESH_TOKEN
      (snd (dropbox_auth_exchange_code cfg parse net authCode save st)) = Some (env_value token)
   \<and> (well_formed token \<and> 0 \<notin> set token \<longrightarrow>
        DROPBOX_REFRESH_TOKEN (snd (dropbox_auth_exchange_code cfg parse net authCode save st))
          = Some token
        \<and> (\<forall>fs. getRefreshToken cfg
               ((snd (dropbox_auth_exchange_code cfg parse net authCode save st))\<lparr>files := fs\<rparr>)
             = Inr token))"
    by blast
qed

theorem exchange_code_overwrites_env_witness:
  "getRefreshToken example_config
     (snd (example_call (Some (lit ''y'')) (Some False)
        \<lparr> DROPBOX_REFRESH_TOKEN = Some (lit ''old''),
          files = [TOKEN_FILE_PATH example_config \<mapsto> [0x66]] \<rparr>))
     = Inr (lit ''y'')"
proof -
  let ?st = "\<lparr> DROPBOX_REFRESH_TOKEN = Some (lit ''old''),
          files = [TOKEN_FILE_PATH example_config \<mapsto> [0x66]] \<rparr>"
  let ?y = "\<lparr> pair_access_token = lit ''x'', pair_refresh_token = Some (lit ''y'') \<rparr>"
  have y: "lit ''y'' \<noteq> []" "well_formed (lit ''y'')" "0 \<notin> set (lit ''y'')"
    by (simp_all add: lit_def isHighSurrogate_def isLowSurrogate_def)
  have "\<forall>fs. getRefreshToken example_config
      ((snd (example_call (Some (lit ''y'')) (Some False) ?st))\<lparr>files := fs\<rparr>) = Inr (lit ''y'')"
    using exchange_code_overwrites_env
      [where cfg = example_config and parse = "example_parse (Some (lit ''y''))"
        and net = "example_net (Some (lit ''y''))" and authCode = "lit ''abc''"
        and save = "Some False" and st = ?st and tokens = "Parsed ?y" and token = "lit ''y''"]
    by (simp add: example_exchange example_body_well_formed tokens_refresh_token_def y
        example_call_def)
  then have "getRefreshToken example_config
      ((snd (example_call (Some (lit ''y'')) (Some False) ?st))
        \<lparr>files := files (snd (example_call (Some (lit ''y'')) (Some False) ?st))\<rparr>)
      = Inr (lit ''y'')"
    by (rule spec)
  then show ?thesis by simp
qed

text \<open>
  C10 as the specification states it fails for the refresh token that is U+0000 and
  \<open>y\<close>: the variable of the environment becomes empty, and \<open>getRefreshToken\<close> returns
  the token of the file.
\<close>

theorem exchange_code_nul_token:
  "getRefreshToken example_config
     (snd (example_call (Some [0x00, 0x79]) (Some False)
        \<lparr> DROPBOX_REFRESH_TOKEN = Some (lit ''old''),
          files = [TOKEN_FILE_PATH example_config \<mapsto> [0x66]] \<rparr>))
     \<noteq> Inr [0x00, 0x79]"
proof -
  let ?st = "\<lparr> DROPBOX_REFRESH_TOKEN = Some (lit ''old''),
          files = [TOKEN_FILE_PATH example_config \<mapsto> [0x66]] \<rparr>"
  have call: "snd (example_call (Some [0x00, 0x79]) (Some False) ?st)
      = ?st\<lparr>DROPBOX_REFRESH_TOKEN := Some []\<rparr>"
    by (simp add: example_call_def exchange_code_success
        [OF example_exchange [OF example_body_nul_well_formed]] tokens_refresh_token_def
        env_value_nul)
  have "getRefreshToken example_config (?st\<lparr>DROPBOX_REFRESH_TOKEN := Some []\<rparr>)
      = Inr (lit ''f'')"
    by (simp add: getRefreshToken_def truthy_def loadRefreshToken_def utf8_sequence_def
        utf16_units_def trim_def isWhiteSpace_def lit_def)
  then show ?thesis
    unfolding call by (simp add: lit_def)
qed

end
